theory Spec2Isabelle
  imports Main
begin

section \<open>Data model of \<open>main.py\<close>\<close>

text \<open>
  The HR service keeps two module-level lists, \<open>employee_db\<close> and \<open>leave_db\<close>, and
  mutates them from its request handlers. The embedding passes both lists around as one
  state record; every handler returns its response (or the \<open>HTTPException\<close> it raises)
  together with the state it leaves behind, so that an exception raised after a mutation
  would be visible in the model.
\<close>

datatype LeaveStatus = PENDING | APPROVED | REJECTED

datatype LeaveType = VACATION | SICK | PERSONAL

text \<open>\<open>LeaveType.value\<close>: the string behind each member of the enum.\<close>

fun leave_type_value :: "LeaveType \<Rightarrow> string" where
  "leave_type_value VACATION = ''vacation''"
| "leave_type_value SICK = ''sick''"
| "leave_type_value PERSONAL = ''personal''"

record LeaveBalance =
  allocated :: int
  used :: int

definition remaining :: "LeaveBalance \<Rightarrow> int" where
  "remaining b = allocated b - used b"

record EmployeeBalances =
  vacation :: LeaveBalance
  sick :: LeaveBalance
  personal :: LeaveBalance

text \<open>The field defaults of \<open>LeaveBalance\<close> and the default factories of \<open>EmployeeBalances\<close>.\<close>

definition default_LeaveBalance :: LeaveBalance where
  "default_LeaveBalance = \<lparr>allocated = 15, used = 0\<rparr>"

definition default_EmployeeBalances :: EmployeeBalances where
  "default_EmployeeBalances =
     \<lparr>vacation = default_LeaveBalance,
      sick = \<lparr>allocated = 10, used = 0\<rparr>,
      personal = \<lparr>allocated = 5, used = 0\<rparr>\<rparr>"

text \<open>
  \<open>getattr(employee.leave_balances, leave_type.value)\<close> selects one of the three fields
  by the enum's string; \<open>set_balance\<close> is the write through the same attribute.
\<close>

fun get_balance :: "EmployeeBalances \<Rightarrow> LeaveType \<Rightarrow> LeaveBalance" where
  "get_balance bs VACATION = vacation bs"
| "get_balance bs SICK = sick bs"
| "get_balance bs PERSONAL = personal bs"

fun set_balance :: "EmployeeBalances \<Rightarrow> LeaveType \<Rightarrow> LeaveBalance \<Rightarrow> EmployeeBalances" where
  "set_balance bs VACATION b = bs\<lparr>vacation := b\<rparr>"
| "set_balance bs SICK b = bs\<lparr>sick := b\<rparr>"
| "set_balance bs PERSONAL b = bs\<lparr>personal := b\<rparr>"

text \<open>
  The field \<open>id\<close> of \<open>Employee\<close> and of \<open>LeaveRequest\<close> is written \<open>id_Employee\<close> and
  \<open>id_LeaveRequest\<close>; the fields of the two request bodies carry the suffix \<open>_data\<close>.
\<close>

record Employee =
  id_Employee :: int
  name :: string
  position :: string
  department :: string
  leave_balances :: EmployeeBalances

record CreateEmployee =
  name_data :: string
  position_data :: string
  department_data :: string

text \<open>
  A \<open>datetime.date\<close> is represented by its proleptic Gregorian ordinal (\<open>date.toordinal()\<close>,
  1 for 0001-01-01). The standard library defines comparison, subtraction, the addition of
  a \<open>timedelta\<close> and \<open>weekday()\<close> through that ordinal.
\<close>

type_synonym date = int

definition is_leap :: "int \<Rightarrow> bool" where
  "is_leap y = (y mod 4 = 0 \<and> (y mod 100 \<noteq> 0 \<or> y mod 400 = 0))"

definition days_before_year :: "int \<Rightarrow> int" where
  "days_before_year year =
     (let y = year - 1 in y * 365 + y div 4 - y div 100 + y div 400)"

definition days_before_month :: "int \<Rightarrow> int \<Rightarrow> int" where
  "days_before_month year month =
     sum_list (take (nat (month - 1)) [31, 28, 31, 30, 31, 30, 31, 31, 30, 31, 30, 31])
       + (if month > 2 \<and> is_leap year then 1 else 0)"

text \<open>\<open>date(year, month, day)\<close>, also what pydantic builds from \<open>"2025-10-20"\<close>.\<close>

definition mk_date :: "int \<Rightarrow> int \<Rightarrow> int \<Rightarrow> date" where
  "mk_date year month day = days_before_year year + days_before_month year month + day"

text \<open>\<open>date.weekday()\<close>: Monday is 0 and Sunday is 6.\<close>

definition weekday :: "date \<Rightarrow> int" where
  "weekday d = (d + 6) mod 7"

record LeaveRequest =
  id_LeaveRequest :: int
  employee_id :: int
  leave_type :: LeaveType
  start_date :: date
  end_date :: date
  reason :: string
  status :: LeaveStatus

text \<open>
  The bound \<open>max_length=300\<close> on \<open>reason\<close> is enforced when the request body is parsed,
  before a handler runs; the handlers below take the parsed body.
\<close>

record CreateLeaveRequest =
  leave_type_data :: LeaveType
  start_date_data :: date
  end_date_data :: date
  reason_data :: string

datatype HTTPException = HTTPException (status_code: int) (detail: string)

record state =
  employee_db :: "Employee list"
  leave_db :: "LeaveRequest list"

text \<open>The two lists as the module initialises them.\<close>

definition initial_state :: state where
  "initial_state =
     \<lparr>employee_db =
        [\<lparr>id_Employee = 1, name = ''Alice Smith'', position = ''Software Engineer'',
          department = ''Technology'', leave_balances = default_EmployeeBalances\<rparr>,
         \<lparr>id_Employee = 2, name = ''Bob Johnson'', position = ''HR Manager'',
          department = ''Human Resources'',
          leave_balances =
            \<lparr>vacation = \<lparr>allocated = 20, used = 5\<rparr>,
             sick = \<lparr>allocated = 10, used = 1\<rparr>,
             personal = \<lparr>allocated = 5, used = 0\<rparr>\<rparr>\<rparr>],
      leave_db =
        [\<lparr>id_LeaveRequest = 1, employee_id = 2, leave_type = VACATION,
          start_date = mk_date 2025 10 20, end_date = mk_date 2025 10 22,
          reason = ''Family vacation.'', status = APPROVED\<rparr>]\<rparr>"

section \<open>Formatting integers\<close>

text \<open>An f-string prints an \<open>int\<close> in decimal, with a minus sign when it is negative.\<close>

definition digit_char :: "nat \<Rightarrow> char" where
  "digit_char n = ''0123456789'' ! (n mod 10)"

function str_nat :: "nat \<Rightarrow> string" where
  "str_nat n = (if n < 10 then [digit_char n] else str_nat (n div 10) @ [digit_char n])"
  by pat_completeness auto
termination
  by (relation "measure (\<lambda>n. n)") auto

definition str_int :: "int \<Rightarrow> string" where
  "str_int i = (if i < 0 then ''-'' @ str_nat (nat (- i)) else str_nat (nat i))"

section \<open>Helper functions\<close>

text \<open>
  \<open>find_employee\<close> returns the first employee of \<open>employee_db\<close> with the given id, or
  raises 404.
\<close>

definition find_employee :: "state \<Rightarrow> int \<Rightarrow> HTTPException + Employee" where
  "find_employee s employee_id' =
     (case find (\<lambda>employee. id_Employee employee = employee_id') (employee_db s) of
        Some employee \<Rightarrow> Inr employee
      | None \<Rightarrow>
          Inl (HTTPException 404 (''Employee with ID '' @ str_int employee_id' @ '' not found'')))"

text \<open>
  \<open>range(days)\<close> is \<open>[0..days - 1]\<close>; the generator contributes a 1 for each offset whose
  date falls on a Saturday or Sunday.
\<close>

definition calculate_business_days :: "date \<Rightarrow> date \<Rightarrow> int" where
  "calculate_business_days start_date' end_date' =
     (if start_date' > end_date' then 0
      else
        let days = (end_date' - start_date') + 1;
            weekend_days =
              sum_list (map (\<lambda>i. 1)
                (filter (\<lambda>i. weekday (start_date' + i) \<ge> 5) [0..days - 1]))
        in days - weekend_days)"

text \<open>
  The handlers mutate the object they found in place. The objects of a list are pairwise
  different objects (each is built by the handler that appends it), and the object found
  is the first of the list that meets the search condition, so the mutation is an update
  of the first list element meeting that condition.
\<close>

fun update_first :: "('a \<Rightarrow> bool) \<Rightarrow> ('a \<Rightarrow> 'a) \<Rightarrow> 'a list \<Rightarrow> 'a list" where
  "update_first P f [] = []"
| "update_first P f (x # xs) = (if P x then f x # xs else x # update_first P f xs)"

section \<open>Employee endpoints\<close>

definition create_employee :: "state \<Rightarrow> CreateEmployee \<Rightarrow> (HTTPException + Employee) \<times> state" where
  "create_employee s employee_data =
     (let new_id =
            (if employee_db s \<noteq> [] then Max (set (map id_Employee (employee_db s))) + 1 else 1);
          new_employee =
            \<lparr>id_Employee = new_id, name = name_data employee_data,
             position = position_data employee_data,
             department = department_data employee_data,
             leave_balances = default_EmployeeBalances\<rparr>
      in (Inr new_employee, s\<lparr>employee_db := employee_db s @ [new_employee]\<rparr>))"

definition update_employee ::
  "state \<Rightarrow> int \<Rightarrow> CreateEmployee \<Rightarrow> (HTTPException + Employee) \<times> state" where
  "update_employee s employee_id' updated_data =
     (case find_employee s employee_id' of
        Inl err \<Rightarrow> (Inl err, s)
      | Inr employee \<Rightarrow>
          let employee' =
                employee\<lparr>name := name_data updated_data,
                         position := position_data updated_data,
                         department := department_data updated_data\<rparr>
          in (Inr employee',
              s\<lparr>employee_db :=
                  update_first (\<lambda>e. id_Employee e = employee_id') (\<lambda>_. employee')
                    (employee_db s)\<rparr>))"

text \<open>
  \<open>list.remove\<close> deletes the first element equal to its argument; pydantic models compare
  by their fields.
\<close>

definition delete_employee :: "state \<Rightarrow> int \<Rightarrow> (HTTPException + unit) \<times> state" where
  "delete_employee s employee_id' =
     (case find_employee s employee_id' of
        Inl err \<Rightarrow> (Inl err, s)
      | Inr employee_to_delete \<Rightarrow>
          (Inr (), s\<lparr>employee_db := remove1 employee_to_delete (employee_db s)\<rparr>))"

section \<open>Quota and leave endpoints\<close>

definition create_leave_request ::
  "state \<Rightarrow> int \<Rightarrow> CreateLeaveRequest \<Rightarrow> (HTTPException + LeaveRequest) \<times> state" where
  "create_leave_request s employee_id' request_data =
     (case find_employee s employee_id' of
        Inl err \<Rightarrow> (Inl err, s)
      | Inr employee \<Rightarrow>
          let leave_duration =
                calculate_business_days (start_date_data request_data) (end_date_data request_data)
          in if leave_duration \<le> 0 then
               (Inl (HTTPException 400 ''End date must be after start date.''), s)
             else
               let balance = get_balance (leave_balances employee) (leave_type_data request_data)
               in if remaining balance < leave_duration then
                    (Inl (HTTPException 400
                       (''Insufficient '' @ leave_type_value (leave_type_data request_data)
                          @ '' leave balance. '' @ ''Required: '' @ str_int leave_duration
                          @ '', Available: '' @ str_int (remaining balance))), s)
                  else
                    let new_id =
                          (if leave_db s \<noteq> []
                           then Max (set (map id_LeaveRequest (leave_db s))) + 1 else 1);
                        new_request =
                          \<lparr>id_LeaveRequest = new_id, employee_id = employee_id',
                           leave_type = leave_type_data request_data,
                           start_date = start_date_data request_data,
                           end_date = end_date_data request_data,
                           reason = reason_data request_data,
                           status = PENDING\<rparr>
                    in (Inr new_request, s\<lparr>leave_db := leave_db s @ [new_request]\<rparr>))"

text \<open>
  \<open>set_used\<close> is the assignment \<open>balance.used = v\<close>, where \<open>balance\<close> is the balance
  object of category \<open>ty\<close> of the employee that \<open>find_employee\<close> returned for the id;
  \<open>set_status\<close> is the final assignment \<open>request_to_update.status = ...\<close> and the return.
\<close>

definition set_used :: "state \<Rightarrow> int \<Rightarrow> LeaveType \<Rightarrow> int \<Rightarrow> state" where
  "set_used s employee_id' ty v =
     s\<lparr>employee_db :=
         update_first (\<lambda>e. id_Employee e = employee_id')
           (\<lambda>e. e\<lparr>leave_balances :=
                     set_balance (leave_balances e) ty
                       ((get_balance (leave_balances e) ty)\<lparr>used := v\<rparr>)\<rparr>)
           (employee_db s)\<rparr>"

definition set_status ::
  "state \<Rightarrow> LeaveRequest \<Rightarrow> LeaveStatus \<Rightarrow> (HTTPException + LeaveRequest) \<times> state" where
  "set_status s request_to_update new_status =
     (Inr (request_to_update\<lparr>status := new_status\<rparr>),
      s\<lparr>leave_db :=
          update_first (\<lambda>req. id_LeaveRequest req = id_LeaveRequest request_to_update)
            (\<lambda>req. req\<lparr>status := new_status\<rparr>) (leave_db s)\<rparr>)"

text \<open>
  The request body \<open>UpdateLeaveStatus\<close> has the single field \<open>status\<close>; the handler
  takes it as \<open>new_status\<close>.
\<close>

definition update_leave_request_status ::
  "state \<Rightarrow> int \<Rightarrow> LeaveStatus \<Rightarrow> (HTTPException + LeaveRequest) \<times> state" where
  "update_leave_request_status s request_id new_status =
     (case find (\<lambda>req. id_LeaveRequest req = request_id) (leave_db s) of
        None \<Rightarrow>
          (Inl (HTTPException 404
             (''Leave request with ID '' @ str_int request_id @ '' not found'')), s)
      | Some request_to_update \<Rightarrow>
          (case find_employee s (employee_id request_to_update) of
             Inl err \<Rightarrow> (Inl err, s)
           | Inr employee \<Rightarrow>
               let leave_duration =
                     calculate_business_days (start_date request_to_update)
                       (end_date request_to_update);
                   ty = leave_type request_to_update;
                   balance = get_balance (leave_balances employee) ty;
                   is_newly_approved =
                     (new_status = APPROVED \<and> status request_to_update \<noteq> APPROVED);
                   was_previously_approved =
                     (status request_to_update = APPROVED \<and> new_status \<noteq> APPROVED)
               in if is_newly_approved then
                    if remaining balance < leave_duration then
                      (Inl (HTTPException 400
                         (''Cannot approve. Employee has insufficient ''
                            @ leave_type_value ty @ '' balance.'')), s)
                    else
                      set_status
                        (set_used s (employee_id request_to_update) ty
                           (used balance + leave_duration))
                        request_to_update new_status
                  else if was_previously_approved then
                    set_status
                      (set_used s (employee_id request_to_update) ty
                         (used balance - leave_duration))
                      request_to_update new_status
                  else set_status s request_to_update new_status))"

section \<open>Sequences of API calls\<close>

text \<open>
  The five handlers that assign to \<open>employee_db\<close>, \<open>leave_db\<close> or an object in them. The
  \<open>GET\<close> handlers only read the lists and leave every state as it is.
\<close>

datatype api_call =
    CreateEmployeeCall CreateEmployee
  | UpdateEmployeeCall int CreateEmployee
  | DeleteEmployeeCall int
  | CreateLeaveCall int CreateLeaveRequest
  | UpdateStatusCall int LeaveStatus

text \<open>The state a call leaves behind, whether it returns or raises.\<close>

fun exec :: "state \<Rightarrow> api_call \<Rightarrow> state" where
  "exec s (CreateEmployeeCall d) = snd (create_employee s d)"
| "exec s (UpdateEmployeeCall i d) = snd (update_employee s i d)"
| "exec s (DeleteEmployeeCall i) = snd (delete_employee s i)"
| "exec s (CreateLeaveCall i d) = snd (create_leave_request s i d)"
| "exec s (UpdateStatusCall i st) = snd (update_leave_request_status s i st)"

fun run :: "state \<Rightarrow> api_call list \<Rightarrow> state" where
  "run s [] = s"
| "run s (c # cs) = run (exec s c) cs"

text \<open>
  The ids that \<open>create_employee\<close> hands out along a sequence of calls, in the order of
  the calls.
\<close>

fun assigned_ids :: "state \<Rightarrow> api_call list \<Rightarrow> int list" where
  "assigned_ids s [] = []"
| "assigned_ids s (CreateEmployeeCall d # cs) =
     (case fst (create_employee s d) of
        Inr e \<Rightarrow> id_Employee e # assigned_ids (exec s (CreateEmployeeCall d)) cs
      | Inl _ \<Rightarrow> assigned_ids (exec s (CreateEmployeeCall d)) cs)"
| "assigned_ids s (c # cs) = assigned_ids (exec s c) cs"

text \<open>
  A call deletes the highest id when it is \<open>delete_employee\<close> on the id that is the maximum
  of \<open>employee_db\<close>; \<open>keeps_highest\<close> says that no call of the sequence does so in the state
  it runs in.
\<close>

fun deletes_highest :: "state \<Rightarrow> api_call \<Rightarrow> bool" where
  "deletes_highest s (DeleteEmployeeCall i) =
     (employee_db s \<noteq> [] \<and> i = Max (set (map id_Employee (employee_db s))))"
| "deletes_highest s _ = False"

fun keeps_highest :: "state \<Rightarrow> api_call list \<Rightarrow> bool" where
  "keeps_highest s [] = True"
| "keeps_highest s (c # cs) = (\<not> deletes_highest s c \<and> keeps_highest (exec s c) cs)"

section \<open>Properties stated about the service\<close>

text \<open>
  The number of days of the inclusive range whose day of the week is Monday to Friday,
  counted directly over the dates of the range.
\<close>

definition weekdays_in_range :: "date \<Rightarrow> date \<Rightarrow> int" where
  "weekdays_in_range s e = int (length (filter (\<lambda>d. weekday d < 5) [s..e]))"

definition leave_types :: "LeaveType list" where
  "leave_types = [VACATION, SICK, PERSONAL]"

text \<open>No balance of the employee, and of the state, has more used than allocated.\<close>

definition balance_within :: "Employee \<Rightarrow> bool" where
  "balance_within e =
     list_all (\<lambda>ty.
         used (get_balance (leave_balances e) ty) \<le> allocated (get_balance (leave_balances e) ty))
       leave_types"

definition within_allocation :: "state \<Rightarrow> bool" where
  "within_allocation s = list_all balance_within (employee_db s)"

text \<open>No balance of the employee, and of the state, has a negative \<open>used\<close>.\<close>

definition balance_nonneg :: "Employee \<Rightarrow> bool" where
  "balance_nonneg e =
     list_all (\<lambda>ty. 0 \<le> used (get_balance (leave_balances e) ty)) leave_types"

definition nonneg_used :: "state \<Rightarrow> bool" where
  "nonneg_used s = list_all balance_nonneg (employee_db s)"

text \<open>
  A call orphans an approved request when it is \<open>delete_employee\<close> on an id that an approved
  request of \<open>leave_db\<close> refers to; \<open>keeps_owners\<close> says that no call of the sequence does so
  in the state it runs in.
\<close>

fun orphans_approved :: "state \<Rightarrow> api_call \<Rightarrow> bool" where
  "orphans_approved s (DeleteEmployeeCall i) =
     list_ex (\<lambda>r. status r = APPROVED \<and> employee_id r = i) (leave_db s)"
| "orphans_approved s _ = False"

fun keeps_owners :: "state \<Rightarrow> api_call list \<Rightarrow> bool" where
  "keeps_owners s [] = True"
| "keeps_owners s (c # cs) = (\<not> orphans_approved s c \<and> keeps_owners (exec s c) cs)"

text \<open>
  The days that a request charges to the balance of category \<open>ty\<close> of employee id \<open>i\<close>: its
  business days when it is approved and belongs there, and the total over a request list.
\<close>

definition charged_days :: "int \<Rightarrow> LeaveType \<Rightarrow> LeaveRequest \<Rightarrow> int" where
  "charged_days i ty r =
     (if status r = APPROVED \<and> employee_id r = i \<and> leave_type r = ty
      then calculate_business_days (start_date r) (end_date r) else 0)"

definition approved_days :: "LeaveRequest list \<Rightarrow> int \<Rightarrow> LeaveType \<Rightarrow> int" where
  "approved_days rs i ty = sum_list (map (charged_days i ty) rs)"

text \<open>
  The ledger covers the approvals when every balance has at least the approved days of its
  employee id and category in \<open>used\<close>; approved requests are owned when the employee they
  refer to exists.
\<close>

definition covered :: "LeaveRequest list \<Rightarrow> Employee \<Rightarrow> bool" where
  "covered rs e =
     list_all (\<lambda>ty. approved_days rs (id_Employee e) ty \<le> used (get_balance (leave_balances e) ty))
       leave_types"

definition ledger_covers :: "state \<Rightarrow> bool" where
  "ledger_covers s = list_all (covered (leave_db s)) (employee_db s)"

definition approved_owned :: "state \<Rightarrow> bool" where
  "approved_owned s =
     list_all (\<lambda>r. status r = APPROVED \<longrightarrow>
         employee_id r \<in> set (map id_Employee (employee_db s))) (leave_db s)"

definition paired :: "state \<Rightarrow> bool" where
  "paired s =
     (distinct (map id_Employee (employee_db s)) \<and> approved_owned s \<and> ledger_covers s)"

text \<open>The employee record after \<open>balance.used = v\<close> on its balance of category \<open>ty\<close>.\<close>

definition with_used :: "Employee \<Rightarrow> LeaveType \<Rightarrow> int \<Rightarrow> Employee" where
  "with_used e ty v =
     e\<lparr>leave_balances :=
         set_balance (leave_balances e) ty ((get_balance (leave_balances e) ty)\<lparr>used := v\<rparr>)\<rparr>"


section \<open>Example scenarios\<close>

text \<open>
  Alice (employee 1, default balances) files a three-day vacation request, Monday
  2025-11-03 to Wednesday 2025-11-05; it becomes request 2.
\<close>

definition alice :: Employee where
  "alice = \<lparr>id_Employee = 1, name = ''Alice Smith'', position = ''Software Engineer'',
     department = ''Technology'', leave_balances = default_EmployeeBalances\<rparr>"

definition bob :: Employee where
  "bob = \<lparr>id_Employee = 2, name = ''Bob Johnson'', position = ''HR Manager'',
     department = ''Human Resources'',
     leave_balances =
       \<lparr>vacation = \<lparr>allocated = 20, used = 5\<rparr>,
        sick = \<lparr>allocated = 10, used = 1\<rparr>,
        personal = \<lparr>allocated = 5, used = 0\<rparr>\<rparr>\<rparr>"

definition seed_request :: LeaveRequest where
  "seed_request =
     \<lparr>id_LeaveRequest = 1, employee_id = 2, leave_type = VACATION,
      start_date = mk_date 2025 10 20, end_date = mk_date 2025 10 22,
      reason = ''Family vacation.'', status = APPROVED\<rparr>"

definition trip :: CreateLeaveRequest where
  "trip = \<lparr>leave_type_data = VACATION, start_date_data = mk_date 2025 11 3,
     end_date_data = mk_date 2025 11 5, reason_data = ''Trip''\<rparr>"

definition trip_request :: LeaveRequest where
  "trip_request =
     \<lparr>id_LeaveRequest = 2, employee_id = 1, leave_type = VACATION,
      start_date = mk_date 2025 11 3, end_date = mk_date 2025 11 5, reason = ''Trip'',
      status = PENDING\<rparr>"

definition trip_state :: state where
  "trip_state = run initial_state [CreateLeaveCall 1 trip]"

text \<open>
  Alice files two personal-leave requests of five business days each (requests 2 and 3)
  against her allocation of 5, and the first of them is approved.
\<close>

definition week1 :: CreateLeaveRequest where
  "week1 = \<lparr>leave_type_data = PERSONAL, start_date_data = mk_date 2025 11 3,
     end_date_data = mk_date 2025 11 7, reason_data = ''Moving house''\<rparr>"

definition week2 :: CreateLeaveRequest where
  "week2 = \<lparr>leave_type_data = PERSONAL, start_date_data = mk_date 2025 11 10,
     end_date_data = mk_date 2025 11 14, reason_data = ''Unpacking''\<rparr>"

definition week2_request :: LeaveRequest where
  "week2_request =
     \<lparr>id_LeaveRequest = 3, employee_id = 1, leave_type = PERSONAL,
      start_date = mk_date 2025 11 10, end_date = mk_date 2025 11 14,
      reason = ''Unpacking'', status = PENDING\<rparr>"

definition booked_state :: state where
  "booked_state =
     run initial_state [CreateLeaveCall 1 week1, CreateLeaveCall 1 week2, UpdateStatusCall 2 APPROVED]"

text \<open>Bob (employee 2), the owner of the seeded request 1, is deleted.\<close>

definition orphan_state :: state where
  "orphan_state = run initial_state [DeleteEmployeeCall 2]"


text \<open>A new colleague to register.\<close>

definition carol :: CreateEmployee where
  "carol = \<lparr>name_data = ''Carol Diaz'', position_data = ''Analyst'',
     department_data = ''Finance''\<rparr>"

text \<open>The record \<open>create_employee\<close> builds for her in the initial state.\<close>

definition carol_record :: Employee where
  "carol_record = \<lparr>id_Employee = 3, name = ''Carol Diaz'', position = ''Analyst'',
     department = ''Finance'', leave_balances = default_EmployeeBalances\<rparr>"

section \<open>The calendar utility\<close>

declare str_nat.simps [simp del]

lemma sum_list_ones: "sum_list (map (\<lambda>i. 1::int) xs) = int (length xs)"
  by (induction xs) auto

lemma upto_shift: "[s..e] = map (\<lambda>i. s + i) [0..e - s]"
  by (rule nth_equalityI) auto

lemma filter_shift:
  "length (filter P [s..e]) = length (filter (\<lambda>i. P (s + i)) [0..e - s])"
proof -
  have "filter P [s..e] = map (\<lambda>i. s + i) (filter (\<lambda>i. P (s + i)) [0..e - s])"
    by (subst upto_shift) (simp add: filter_map comp_def)
  then show ?thesis by simp
qed

lemma business_days_count:
  assumes le: "s \<le> e"
  shows "calculate_business_days s e = weekdays_in_range s e"
proof -
  let ?W = "\<lambda>i. weekday (s + i) \<ge> 5"
  let ?xs = "[0..e - s]"
  have "length (filter ?W ?xs) + length (filter (\<lambda>i. \<not> ?W i) ?xs) = length ?xs"
    by (rule sum_length_filter_compl)
  moreover have "length ?xs = nat (e - s + 1)" by simp
  moreover have "(\<lambda>i. \<not> ?W i) = (\<lambda>i. weekday (s + i) < 5)" by auto
  ultimately have
    "int (length (filter (\<lambda>i. weekday (s + i) < 5) ?xs))
       = (e - s + 1) - int (length (filter ?W ?xs))"
    using le by simp
  then show ?thesis
    using le
    by (simp add: calculate_business_days_def weekdays_in_range_def sum_list_ones
        filter_shift [of "\<lambda>d. weekday d < 5"] Let_def)
qed

lemma business_days_nonneg: "0 \<le> calculate_business_days s e"
proof (cases "s \<le> e")
  case True
  then show ?thesis by (simp add: business_days_count weekdays_in_range_def)
next
  case False
  then show ?thesis by (simp add: calculate_business_days_def)
qed

lemmas date_defs =
  mk_date_def days_before_year_def days_before_month_def is_leap_def weekday_def

text \<open>
  C7. \<open>calculate_business_days\<close> returns 0 when the start date is after the end date, and
  otherwise the number of days of the inclusive range from start to end that fall on Monday
  to Friday. From Monday 2025-10-20 to Wednesday 2025-10-22 it returns 3, and from Saturday
  2025-10-18 to Sunday 2025-10-19 it returns 0.
\<close>

theorem calculate_business_days_spec:
  "(end_date' < start_date' \<longrightarrow> calculate_business_days start_date' end_date' = 0) \<and>
   (start_date' \<le> end_date' \<longrightarrow>
      calculate_business_days start_date' end_date' = weekdays_in_range start_date' end_date') \<and>
   calculate_business_days (mk_date 2025 10 20) (mk_date 2025 10 22) = 3 \<and>
   calculate_business_days (mk_date 2025 10 18) (mk_date 2025 10 19) = 0"
proof (intro conjI impI)
  assume "end_date' < start_date'"
  then show "calculate_business_days start_date' end_date' = 0"
    by (simp add: calculate_business_days_def)
next
  assume "start_date' \<le> end_date'"
  then show "calculate_business_days start_date' end_date'
    = weekdays_in_range start_date' end_date'"
    by (rule business_days_count)
next
  show "calculate_business_days (mk_date 2025 10 20) (mk_date 2025 10 22) = 3"
    by code_simp
next
  show "calculate_business_days (mk_date 2025 10 18) (mk_date 2025 10 19) = 0"
    by code_simp
qed

theorem calculate_business_days_spec_witness:
  "calculate_business_days (mk_date 2025 10 17) (mk_date 2025 10 21) = 3 \<and>
   weekdays_in_range (mk_date 2025 10 17) (mk_date 2025 10 21) = 3 \<and>
   calculate_business_days (mk_date 2025 10 21) (mk_date 2025 10 17) = 0"
proof -
  have le: "mk_date 2025 10 17 \<le> mk_date 2025 10 21"
    by code_simp
  have lt: "mk_date 2025 10 17 < mk_date 2025 10 21"
    by code_simp
  have w: "weekdays_in_range (mk_date 2025 10 17) (mk_date 2025 10 21) = 3"
    by code_simp
  from calculate_business_days_spec
    [where start_date' = "mk_date 2025 10 17" and end_date' = "mk_date 2025 10 21"] le w
  have a: "calculate_business_days (mk_date 2025 10 17) (mk_date 2025 10 21) = 3"
    by simp
  from calculate_business_days_spec
    [where start_date' = "mk_date 2025 10 21" and end_date' = "mk_date 2025 10 17"] lt
  have b: "calculate_business_days (mk_date 2025 10 21) (mk_date 2025 10 17) = 0"
    by simp
  from a w b show ?thesis by simp
qed


section \<open>In-place updates of the first matching element\<close>

lemma update_first_unchanged:
  "find P xs = None \<Longrightarrow> update_first P f xs = xs"
  by (induction xs) (auto split: if_splits)

lemma update_first_same:
  "find P xs = Some x \<Longrightarrow> f x = x \<Longrightarrow> update_first P f xs = xs"
  by (induction xs) (auto split: if_splits)

lemma find_update_first:
  "find P xs = Some x \<Longrightarrow> P (f x) \<Longrightarrow> find P (update_first P f xs) = Some (f x)"
  by (induction xs) (auto split: if_splits)

lemma update_first_twice:
  "find P xs = Some x \<Longrightarrow> P (f x) \<Longrightarrow>
   update_first P g (update_first P f xs) = update_first P (\<lambda>y. g (f y)) xs"
  by (induction xs) (auto split: if_splits)

lemma map_update_first:
  "(\<And>x. h (f x) = h x) \<Longrightarrow> map h (update_first P f xs) = map h xs"
  by (induction xs) auto

lemma length_update_first [simp]: "length (update_first P f xs) = length xs"
  by (induction xs) auto

lemma find_SomeD: "find P xs = Some x \<Longrightarrow> P x \<and> x \<in> set xs"
  by (induction xs) (auto split: if_splits)

section \<open>Balances\<close>

lemma get_set_balance_same [simp]: "get_balance (set_balance bs ty b) ty = b"
  by (cases ty) auto

lemma get_set_balance_other [simp]:
  "ty' \<noteq> ty \<Longrightarrow> get_balance (set_balance bs ty b) ty' = get_balance bs ty'"
  by (cases ty; cases ty') auto

lemma set_get_balance [simp]: "set_balance bs ty (get_balance bs ty) = bs"
  by (cases ty) auto

lemma set_set_balance [simp]: "set_balance (set_balance bs ty b) ty b' = set_balance bs ty b'"
  by (cases ty) auto

lemma find_employee_Inr:
  "find_employee s i = Inr e \<longleftrightarrow> find (\<lambda>x. id_Employee x = i) (employee_db s) = Some e"
  by (auto simp: find_employee_def split: option.splits)

lemma find_employee_set_used:
  assumes "find_employee s i = Inr e"
  shows "find_employee (set_used s i ty v) i = Inr (with_used e ty v)"
proof -
  from assms have f: "find (\<lambda>x. id_Employee x = i) (employee_db s) = Some e"
    by (simp add: find_employee_Inr)
  then have "id_Employee e = i" by (auto dest: find_SomeD)
  then have "id_Employee (with_used e ty v) = i" by (simp add: with_used_def)
  from find_update_first [OF f, of "\<lambda>e. with_used e ty v", OF this]
  show ?thesis by (simp add: find_employee_Inr set_used_def with_used_def)
qed

lemma find_employee_set_status [simp]:
  "find_employee (snd (set_status s r st)) i = find_employee s i"
  by (simp add: find_employee_def set_status_def)

lemma employee_db_set_status [simp]:
  "employee_db (snd (set_status s r st)) = employee_db s"
  by (simp add: set_status_def)

lemma fst_set_status [simp]: "fst (set_status s r st) = Inr (r\<lparr>status := st\<rparr>)"
  by (simp add: set_status_def)

lemma used_with_used [simp]: "used (get_balance (leave_balances (with_used e ty v)) ty) = v"
  by (simp add: with_used_def)


lemma with_used_twice [simp]: "with_used (with_used e ty v) ty v' = with_used e ty v'"
  by (simp add: with_used_def)

lemma with_used_same: "v = used (get_balance (leave_balances e) ty) \<Longrightarrow> with_used e ty v = e"
  by (simp add: with_used_def)

lemma id_with_used [simp]: "id_Employee (with_used e ty v) = id_Employee e"
  by (simp add: with_used_def)

lemma employee_db_set_used:
  "employee_db (set_used s i ty v)
     = update_first (\<lambda>e. id_Employee e = i) (\<lambda>e. with_used e ty v) (employee_db s)"
  by (simp add: set_used_def with_used_def)

lemma leave_db_set_used [simp]: "leave_db (set_used s i ty v) = leave_db s"
  by (simp add: set_used_def)

lemma leave_db_set_status:
  "leave_db (snd (set_status s r st))
     = update_first (\<lambda>req. id_LeaveRequest req = id_LeaveRequest r)
         (\<lambda>req. req\<lparr>status := st\<rparr>) (leave_db s)"
  by (simp add: set_status_def)

subsection \<open>The branches of \<open>update_leave_request_status\<close>\<close>

lemma update_status_credit:
  assumes "find (\<lambda>req. id_LeaveRequest req = request_id) (leave_db s) = Some r"
    and "find_employee s (employee_id r) = Inr e"
    and "status r \<noteq> APPROVED"
    and "calculate_business_days (start_date r) (end_date r)
           \<le> remaining (get_balance (leave_balances e) (leave_type r))"
  shows "update_leave_request_status s request_id APPROVED
    = set_status
        (set_used s (employee_id r) (leave_type r)
           (used (get_balance (leave_balances e) (leave_type r))
              + calculate_business_days (start_date r) (end_date r)))
        r APPROVED"
  using assms by (simp add: update_leave_request_status_def Let_def)

lemma update_status_insufficient:
  assumes "find (\<lambda>req. id_LeaveRequest req = request_id) (leave_db s) = Some r"
    and "find_employee s (employee_id r) = Inr e"
    and "status r \<noteq> APPROVED"
    and "remaining (get_balance (leave_balances e) (leave_type r))
           < calculate_business_days (start_date r) (end_date r)"
  shows "update_leave_request_status s request_id APPROVED
    = (Inl (HTTPException 400
         (''Cannot approve. Employee has insufficient '' @ leave_type_value (leave_type r)
            @ '' balance.'')), s)"
  using assms by (simp add: update_leave_request_status_def Let_def)

lemma update_status_reclaim:
  assumes "find (\<lambda>req. id_LeaveRequest req = request_id) (leave_db s) = Some r"
    and "find_employee s (employee_id r) = Inr e"
    and "status r = APPROVED"
    and "new_status \<noteq> APPROVED"
  shows "update_leave_request_status s request_id new_status
    = set_status
        (set_used s (employee_id r) (leave_type r)
           (used (get_balance (leave_balances e) (leave_type r))
              - calculate_business_days (start_date r) (end_date r)))
        r new_status"
  using assms by (simp add: update_leave_request_status_def Let_def)

lemma update_status_plain:
  assumes "find (\<lambda>req. id_LeaveRequest req = request_id) (leave_db s) = Some r"
    and "find_employee s (employee_id r) = Inr e"
    and "(status r = APPROVED) = (new_status = APPROVED)"
  shows "update_leave_request_status s request_id new_status = set_status s r new_status"
  using assms by (auto simp add: update_leave_request_status_def Let_def)

lemma update_status_no_employee:
  assumes "find (\<lambda>req. id_LeaveRequest req = request_id) (leave_db s) = Some r"
    and "find_employee s (employee_id r) = Inl err"
  shows "update_leave_request_status s request_id new_status = (Inl err, s)"
  using assms by (simp add: update_leave_request_status_def)

lemma update_status_no_request:
  assumes "find (\<lambda>req. id_LeaveRequest req = request_id) (leave_db s) = None"
  shows "update_leave_request_status s request_id new_status
    = (Inl (HTTPException 404
         (''Leave request with ID '' @ str_int request_id @ '' not found'')), s)"
  using assms by (simp add: update_leave_request_status_def)

lemma set_status_same:
  assumes "find (\<lambda>req. id_LeaveRequest req = id_LeaveRequest r) (leave_db s) = Some r"
    and "status r = st"
  shows "snd (set_status s r st) = s"
proof -
  from assms(2) have "r\<lparr>status := st\<rparr> = r" by simp
  with assms(1) have "update_first (\<lambda>req. id_LeaveRequest req = id_LeaveRequest r)
      (\<lambda>req. req\<lparr>status := st\<rparr>) (leave_db s) = leave_db s"
    by (intro update_first_same) simp_all
  then show ?thesis by (simp add: set_status_def)
qed

text \<open>
  C3. For a stored leave request that is not approved, whose employee exists and has at
  least the request's business days remaining in the request's category, the update to
  \<open>APPROVED\<close> succeeds, stores the status \<open>APPROVED\<close> on the request and raises that
  balance's \<open>used\<close> by exactly \<open>calculate_business_days (start_date r) (end_date r)\<close>,
  leaving the rest of the employee record as it was; approving the same request a second
  time in a row then changes nothing, so the days are credited once. For a stored request
  that is already approved, the update to \<open>APPROVED\<close> leaves the whole state, hence every
  balance, as it was.
\<close>

theorem approve_credits_duration:
  assumes "find (\<lambda>req. id_LeaveRequest req = request_id) (leave_db s) = Some r"
  shows "(status r \<noteq> APPROVED \<and> find_employee s (employee_id r) = Inr e \<and>
          calculate_business_days (start_date r) (end_date r)
            \<le> remaining (get_balance (leave_balances e) (leave_type r)) \<longrightarrow>
          fst (update_leave_request_status s request_id APPROVED) = Inr (r\<lparr>status := APPROVED\<rparr>) \<and>
          find (\<lambda>req. id_LeaveRequest req = request_id)
            (leave_db (snd (update_leave_request_status s request_id APPROVED)))
            = Some (r\<lparr>status := APPROVED\<rparr>) \<and>
          find_employee (snd (update_leave_request_status s request_id APPROVED)) (employee_id r)
            = Inr (with_used e (leave_type r)
                (used (get_balance (leave_balances e) (leave_type r))
                   + calculate_business_days (start_date r) (end_date r))) \<and>
          (\<exists>e'. find_employee (snd (update_leave_request_status s request_id APPROVED))
                  (employee_id r) = Inr e' \<and>
                used (get_balance (leave_balances e') (leave_type r))
                  = used (get_balance (leave_balances e) (leave_type r))
                    + calculate_business_days (start_date r) (end_date r)) \<and>
          fst (update_leave_request_status
                 (snd (update_leave_request_status s request_id APPROVED)) request_id APPROVED)
            = Inr (r\<lparr>status := APPROVED\<rparr>) \<and>
          snd (update_leave_request_status
                 (snd (update_leave_request_status s request_id APPROVED)) request_id APPROVED)
            = snd (update_leave_request_status s request_id APPROVED)) \<and>
         (status r = APPROVED \<longrightarrow>
          snd (update_leave_request_status s request_id APPROVED) = s \<and>
          employee_db (snd (update_leave_request_status s request_id APPROVED)) = employee_db s)"
proof (intro conjI impI)
  assume a: "status r \<noteq> APPROVED \<and> find_employee s (employee_id r) = Inr e \<and>
          calculate_business_days (start_date r) (end_date r)
            \<le> remaining (get_balance (leave_balances e) (leave_type r))"
  let ?d = "calculate_business_days (start_date r) (end_date r)"
  let ?b = "get_balance (leave_balances e) (leave_type r)"
  let ?P = "\<lambda>req. id_LeaveRequest req = request_id"
  let ?s1 = "snd (update_leave_request_status s request_id APPROVED)"
  let ?r1 = "r\<lparr>status := APPROVED\<rparr>"
  have idr: "id_LeaveRequest r = request_id"
    using assms by (auto dest: find_SomeD)
  have eq: "update_leave_request_status s request_id APPROVED
    = set_status (set_used s (employee_id r) (leave_type r) (used ?b + ?d)) r APPROVED"
    using assms a by (simp add: update_leave_request_status_def Let_def)
  show "fst (update_leave_request_status s request_id APPROVED) = Inr ?r1"
    by (simp add: eq)
  show r1: "find ?P (leave_db ?s1) = Some ?r1"
    using find_update_first [OF assms, of "\<lambda>req. req\<lparr>status := APPROVED\<rparr>"] idr
    by (simp add: eq leave_db_set_status)
  show e1: "find_employee ?s1 (employee_id r) = Inr (with_used e (leave_type r) (used ?b + ?d))"
    using a by (simp add: eq find_employee_set_used)
  then show "\<exists>e'. find_employee ?s1 (employee_id r) = Inr e' \<and>
                used (get_balance (leave_balances e') (leave_type r)) = used ?b + ?d"
    by simp
  have eq2: "update_leave_request_status ?s1 request_id APPROVED = set_status ?s1 ?r1 APPROVED"
    using update_status_plain [OF r1, of "with_used e (leave_type r) (used ?b + ?d)" APPROVED] e1
    by simp
  show "fst (update_leave_request_status ?s1 request_id APPROVED) = Inr ?r1"
    by (simp add: eq2)
  have "find (\<lambda>req. id_LeaveRequest req = id_LeaveRequest ?r1) (leave_db ?s1) = Some ?r1"
    using r1 idr by simp
  then have "snd (set_status ?s1 ?r1 APPROVED) = ?s1"
    by (rule set_status_same) simp
  then show "snd (update_leave_request_status ?s1 request_id APPROVED) = ?s1"
    by (simp only: eq2)
next
  assume st: "status r = APPROVED"
  have idr: "id_LeaveRequest r = request_id"
    using assms by (auto dest: find_SomeD)
  show same: "snd (update_leave_request_status s request_id APPROVED) = s"
  proof (cases "find_employee s (employee_id r)")
    case (Inl err)
    with assms show ?thesis by (simp add: update_status_no_employee)
  next
    case (Inr e0)
    with assms st have "update_leave_request_status s request_id APPROVED
      = set_status s r APPROVED"
      by (simp add: update_status_plain)
    moreover have "snd (set_status s r APPROVED) = s"
      using assms idr st by (intro set_status_same) simp_all
    ultimately show ?thesis by simp
  qed
  then show "employee_db (snd (update_leave_request_status s request_id APPROVED)) = employee_db s"
    by simp
qed

theorem approve_credits_duration_witness:
  "fst (update_leave_request_status trip_state 2 APPROVED)
     = Inr (trip_request\<lparr>status := APPROVED\<rparr>) \<and>
   find (\<lambda>req. id_LeaveRequest req = 2)
     (leave_db (snd (update_leave_request_status trip_state 2 APPROVED)))
     = Some (trip_request\<lparr>status := APPROVED\<rparr>) \<and>
   find_employee (snd (update_leave_request_status trip_state 2 APPROVED)) 1
     = Inr (with_used alice VACATION 3) \<and>
   find_employee
     (snd (update_leave_request_status
             (snd (update_leave_request_status trip_state 2 APPROVED)) 2 APPROVED)) 1
     = Inr (with_used alice VACATION 3) \<and>
   used (get_balance (leave_balances (with_used alice VACATION 3)) VACATION) = 3 \<and>
   snd (update_leave_request_status initial_state 1 APPROVED) = initial_state"
proof -
  have f: "find (\<lambda>req. id_LeaveRequest req = 2) (leave_db trip_state) = Some trip_request"
    by code_simp
  have p: "status trip_request \<noteq> APPROVED \<and>
      find_employee trip_state (employee_id trip_request) = Inr alice \<and>
      calculate_business_days (start_date trip_request) (end_date trip_request)
        \<le> remaining (get_balance (leave_balances alice) (leave_type trip_request))"
    by code_simp
  have v: "employee_id trip_request = 1" "leave_type trip_request = VACATION"
    "used (get_balance (leave_balances alice) VACATION)
       + calculate_business_days (start_date trip_request) (end_date trip_request) = 3"
    by code_simp+
  have g: "find (\<lambda>req. id_LeaveRequest req = 1) (leave_db initial_state) = Some seed_request"
    by code_simp
  have q: "status seed_request = APPROVED"
    by code_simp
  from approve_credits_duration [OF f, where e = alice] p
  have 1: "fst (update_leave_request_status trip_state 2 APPROVED)
        = Inr (trip_request\<lparr>status := APPROVED\<rparr>)"
    and 2: "find (\<lambda>req. id_LeaveRequest req = 2)
        (leave_db (snd (update_leave_request_status trip_state 2 APPROVED)))
        = Some (trip_request\<lparr>status := APPROVED\<rparr>)"
    and 3: "find_employee (snd (update_leave_request_status trip_state 2 APPROVED)) 1
        = Inr (with_used alice VACATION 3)"
    and 4: "snd (update_leave_request_status
             (snd (update_leave_request_status trip_state 2 APPROVED)) 2 APPROVED)
        = snd (update_leave_request_status trip_state 2 APPROVED)"
    unfolding v by blast+
  from approve_credits_duration [OF g] q
  have 5: "snd (update_leave_request_status initial_state 1 APPROVED) = initial_state"
    by blast
  have 6: "used (get_balance (leave_balances (with_used alice VACATION 3)) VACATION) = 3"
    by (rule used_with_used)
  show ?thesis by (simp only: 1 2 3 4 5 6 simp_thms)
qed

text \<open>
  C4. For a stored approved request whose employee exists, the update to \<open>REJECTED\<close> or
  \<open>PENDING\<close> succeeds and lowers the category balance's \<open>used\<close> by exactly the request's
  business days. For a pending request with sufficient balance, approving and then
  rejecting it returns the employee record, and with it \<open>used\<close>, to its value before the
  cycle.
\<close>

theorem reject_reclaims_duration:
  assumes "find (\<lambda>req. id_LeaveRequest req = request_id) (leave_db s) = Some r"
    and "find_employee s (employee_id r) = Inr e"
  shows "(status r = APPROVED \<and> (new_status = REJECTED \<or> new_status = PENDING) \<longrightarrow>
          fst (update_leave_request_status s request_id new_status)
            = Inr (r\<lparr>status := new_status\<rparr>) \<and>
          (\<exists>e'. find_employee (snd (update_leave_request_status s request_id new_status))
                  (employee_id r) = Inr e' \<and>
                used (get_balance (leave_balances e') (leave_type r))
                  = used (get_balance (leave_balances e) (leave_type r))
                    - calculate_business_days (start_date r) (end_date r))) \<and>
         (status r = PENDING \<and>
          calculate_business_days (start_date r) (end_date r)
            \<le> remaining (get_balance (leave_balances e) (leave_type r)) \<longrightarrow>
          fst (update_leave_request_status
                 (snd (update_leave_request_status s request_id APPROVED)) request_id REJECTED)
            = Inr (r\<lparr>status := REJECTED\<rparr>) \<and>
          find_employee
            (snd (update_leave_request_status
                    (snd (update_leave_request_status s request_id APPROVED)) request_id REJECTED))
            (employee_id r) = Inr e)"
proof (intro conjI impI)
  let ?d = "calculate_business_days (start_date r) (end_date r)"
  let ?u = "used (get_balance (leave_balances e) (leave_type r))"
  assume a: "status r = APPROVED \<and> (new_status = REJECTED \<or> new_status = PENDING)"
  then have n: "new_status \<noteq> APPROVED" by auto
  have eq: "update_leave_request_status s request_id new_status
    = set_status (set_used s (employee_id r) (leave_type r) (?u - ?d)) r new_status"
    using assms a n by (simp add: update_status_reclaim)
  show "fst (update_leave_request_status s request_id new_status) = Inr (r\<lparr>status := new_status\<rparr>)"
    by (simp add: eq)
  have "find_employee (snd (update_leave_request_status s request_id new_status)) (employee_id r)
    = Inr (with_used e (leave_type r) (?u - ?d))"
    using assms by (simp add: eq find_employee_set_used)
  then show "\<exists>e'. find_employee (snd (update_leave_request_status s request_id new_status))
                  (employee_id r) = Inr e' \<and>
                used (get_balance (leave_balances e') (leave_type r)) = ?u - ?d"
    by simp
next
  let ?d = "calculate_business_days (start_date r) (end_date r)"
  let ?u = "used (get_balance (leave_balances e) (leave_type r))"
  let ?P = "\<lambda>req. id_LeaveRequest req = request_id"
  let ?s1 = "snd (update_leave_request_status s request_id APPROVED)"
  assume a: "status r = PENDING \<and> ?d \<le> remaining (get_balance (leave_balances e) (leave_type r))"
  have idr: "id_LeaveRequest r = request_id"
    using assms(1) by (auto dest: find_SomeD)
  have eq1: "update_leave_request_status s request_id APPROVED
    = set_status (set_used s (employee_id r) (leave_type r) (?u + ?d)) r APPROVED"
    using assms a by (simp add: update_status_credit)
  have r1: "find ?P (leave_db ?s1) = Some (r\<lparr>status := APPROVED\<rparr>)"
    using find_update_first [OF assms(1), of "\<lambda>req. req\<lparr>status := APPROVED\<rparr>"] idr
    by (simp add: eq1 leave_db_set_status)
  have e1: "find_employee ?s1 (employee_id r) = Inr (with_used e (leave_type r) (?u + ?d))"
    using assms by (simp add: eq1 find_employee_set_used)
  have eq2: "update_leave_request_status ?s1 request_id REJECTED
    = set_status (set_used ?s1 (employee_id r) (leave_type r) ?u) (r\<lparr>status := APPROVED\<rparr>) REJECTED"
    using update_status_reclaim [OF r1, of "with_used e (leave_type r) (?u + ?d)" REJECTED] e1
    by simp
  show "fst (update_leave_request_status ?s1 request_id REJECTED) = Inr (r\<lparr>status := REJECTED\<rparr>)"
    by (simp add: eq2)
  have "find_employee (set_used ?s1 (employee_id r) (leave_type r) ?u) (employee_id r)
    = Inr (with_used (with_used e (leave_type r) (?u + ?d)) (leave_type r) ?u)"
    using e1 by (rule find_employee_set_used)
  then show "find_employee (snd (update_leave_request_status ?s1 request_id REJECTED))
    (employee_id r) = Inr e"
    by (simp add: eq2 with_used_same)
qed

theorem reject_reclaims_duration_witness:
  "fst (update_leave_request_status initial_state 1 REJECTED)
     = Inr (seed_request\<lparr>status := REJECTED\<rparr>) \<and>
   (\<exists>e'. find_employee (snd (update_leave_request_status initial_state 1 REJECTED)) 2 = Inr e' \<and>
         used (get_balance (leave_balances e') VACATION) = 5 - 3) \<and>
   fst (update_leave_request_status
          (snd (update_leave_request_status trip_state 2 APPROVED)) 2 REJECTED)
     = Inr (trip_request\<lparr>status := REJECTED\<rparr>) \<and>
   find_employee
     (snd (update_leave_request_status
             (snd (update_leave_request_status trip_state 2 APPROVED)) 2 REJECTED)) 1
     = Inr alice"
proof -
  have g: "find (\<lambda>req. id_LeaveRequest req = 1) (leave_db initial_state) = Some seed_request"
    by code_simp
  have b: "find_employee initial_state (employee_id seed_request) = Inr bob"
    by code_simp
  have q: "status seed_request = APPROVED"
    by code_simp
  have v: "employee_id seed_request = 2" "leave_type seed_request = VACATION"
    "used (vacation (leave_balances bob)) = 5"
    "calculate_business_days (start_date seed_request) (end_date seed_request) = 3"
    by code_simp+
  have f: "find (\<lambda>req. id_LeaveRequest req = 2) (leave_db trip_state) = Some trip_request"
    by code_simp
  have a: "find_employee trip_state (employee_id trip_request) = Inr alice"
    by code_simp
  have p: "status trip_request = PENDING \<and>
      calculate_business_days (start_date trip_request) (end_date trip_request)
        \<le> remaining (get_balance (leave_balances alice) (leave_type trip_request))"
    by code_simp
  have w: "employee_id trip_request = 1"
    by code_simp
  from reject_reclaims_duration [OF g b, where new_status = REJECTED] q
    reject_reclaims_duration [OF f a, where new_status = REJECTED] p
  show ?thesis by (simp add: v w)
qed

text \<open>
  C5. For a stored request that is not approved and whose employee exists, when the
  request's business days exceed the remaining balance of its category, the update to
  \<open>APPROVED\<close> raises the 400 error of insufficient balance and the state (the status of
  every request and every balance) is exactly the state before the call.
\<close>

theorem approve_insufficient_atomic:
  assumes "find (\<lambda>req. id_LeaveRequest req = request_id) (leave_db s) = Some r"
    and "status r \<noteq> APPROVED"
    and "find_employee s (employee_id r) = Inr e"
    and "remaining (get_balance (leave_balances e) (leave_type r))
           < calculate_business_days (start_date r) (end_date r)"
  shows "update_leave_request_status s request_id APPROVED
    = (Inl (HTTPException 400
         (''Cannot approve. Employee has insufficient '' @ leave_type_value (leave_type r)
            @ '' balance.'')), s)"
  using assms by (simp add: update_status_insufficient)

theorem approve_insufficient_atomic_witness:
  "update_leave_request_status booked_state 3 APPROVED
     = (Inl (HTTPException 400 ''Cannot approve. Employee has insufficient personal balance.''),
        booked_state)"
proof -
  have f: "find (\<lambda>req. id_LeaveRequest req = 3) (leave_db booked_state) = Some week2_request"
    by code_simp
  have n: "status week2_request \<noteq> APPROVED"
    by code_simp
  have e: "find_employee booked_state (employee_id week2_request)
    = Inr (with_used alice PERSONAL 5)"
    by code_simp
  have r: "remaining (get_balance (leave_balances (with_used alice PERSONAL 5))
        (leave_type week2_request))
      < calculate_business_days (start_date week2_request) (end_date week2_request)"
    by code_simp
  have v: "leave_type week2_request = PERSONAL"
    by code_simp
  from approve_insufficient_atomic [OF f n e r] show ?thesis
    by (simp add: v)
qed

text \<open>
  C9. For a stored request whose \<open>employee_id\<close> matches no employee of \<open>employee_db\<close>,
  \<open>update_leave_request_status\<close> raises 404 with a detail that names the missing employee
  id, and the state is exactly the state before the call.
\<close>

theorem orphaned_request_not_found:
  assumes "find (\<lambda>req. id_LeaveRequest req = request_id) (leave_db s) = Some r"
    and "find (\<lambda>employee. id_Employee employee = employee_id r) (employee_db s) = None"
  shows "update_leave_request_status s request_id new_status
    = (Inl (HTTPException 404 (''Employee with ID '' @ str_int (employee_id r) @ '' not found'')),
       s)"
  using assms by (simp add: update_leave_request_status_def find_employee_def)


theorem orphaned_request_not_found_witness:
  "update_leave_request_status orphan_state 1 REJECTED
     = (Inl (HTTPException 404 ''Employee with ID 2 not found''), orphan_state)"
proof -
  have f: "find (\<lambda>req. id_LeaveRequest req = 1) (leave_db orphan_state) = Some seed_request"
    by code_simp
  have n: "find (\<lambda>employee. id_Employee employee = employee_id seed_request)
      (employee_db orphan_state) = None"
    by code_simp
  have v: "str_int (employee_id seed_request) = ''2''"
    by code_simp
  from orphaned_request_not_found [OF f n, of REJECTED] show ?thesis
    by (simp add: v)
qed






text \<open>
  C8. The claim is that every insufficient-balance error names the required and the
  available units. In \<open>booked_state\<close> Alice has no personal leave left and request 3 needs
  five days: the error of the approval names neither number, while the error of
  \<open>create_leave_request\<close> for the same dates names both.
\<close>

theorem approval_failure_message:
  "fst (update_leave_request_status booked_state 3 APPROVED)
     = Inl (HTTPException 400 ''Cannot approve. Employee has insufficient personal balance.'') \<and>
   fst (create_leave_request booked_state 1 week2)
     = Inl (HTTPException 400
         ''Insufficient personal leave balance. Required: 5, Available: 0'')"
  by code_simp


section \<open>Identifiers\<close>

lemma Max_plus_one_fresh:
  fixes xs :: "int list"
  assumes "x \<in> set xs"
  shows "x < Max (set xs) + 1"
proof -
  have "x \<le> Max (set xs)" using assms by simp
  then show ?thesis by simp
qed

lemma employee_db_create_employee:
  "employee_db (snd (create_employee s d)) = employee_db s @ [projr (fst (create_employee s d))]"
  by (simp add: create_employee_def Let_def)

lemma create_employee_id_greater:
  assumes "fst (create_employee s d) = Inr e" and "x \<in> set (employee_db s)"
  shows "id_Employee x < id_Employee e"
proof -
  from assms(2) have ne: "employee_db s \<noteq> []" by auto
  from assms(2) have "id_Employee x \<in> set (map id_Employee (employee_db s))" by simp
  then have "id_Employee x < Max (set (map id_Employee (employee_db s))) + 1"
    by (rule Max_plus_one_fresh)
  with assms(1) ne show ?thesis
    by (auto simp add: create_employee_def Let_def)
qed

lemma map_update_first_found:
  "find P xs = Some x \<Longrightarrow> h (f x) = h x \<Longrightarrow> map h (update_first P f xs) = map h xs"
  by (induction xs) (auto split: if_splits)

lemma distinct_map_remove1:
  "distinct (map h xs) \<Longrightarrow> distinct (map h (remove1 x xs))"
proof -
  assume d: "distinct (map h xs)"
  then have "distinct xs" and "inj_on h (set xs)" by (simp_all add: distinct_map)
  moreover have "set (remove1 x xs) \<subseteq> set xs" by (rule set_remove1_subset)
  ultimately show ?thesis
    by (auto simp add: distinct_map intro: inj_on_subset)
qed

lemma employee_ids_create_employee:
  "distinct (map id_Employee (employee_db s)) \<Longrightarrow>
   distinct (map id_Employee (employee_db (snd (create_employee s d))))"
  using create_employee_id_greater [of s d]
  by (fastforce simp add: create_employee_def Let_def)

lemma employee_ids_update_employee:
  "map id_Employee (employee_db (snd (update_employee s i d))) = map id_Employee (employee_db s)"
proof (cases "find_employee s i")
  case (Inl err)
  then show ?thesis by (simp add: update_employee_def)
next
  case (Inr e)
  then have "find (\<lambda>x. id_Employee x = i) (employee_db s) = Some e"
    by (simp add: find_employee_Inr)
  then show ?thesis
    using Inr by (simp add: update_employee_def Let_def map_update_first_found)
qed

lemma leave_db_update_employee [simp]:
  "leave_db (snd (update_employee s i d)) = leave_db s"
  by (simp add: update_employee_def Let_def split: sum.splits)

lemma leave_db_create_employee [simp]:
  "leave_db (snd (create_employee s d)) = leave_db s"
  by (simp add: create_employee_def Let_def)

lemma leave_db_delete_employee [simp]:
  "leave_db (snd (delete_employee s i)) = leave_db s"
  by (simp add: delete_employee_def split: sum.splits)

lemma employee_ids_delete_employee:
  "distinct (map id_Employee (employee_db s)) \<Longrightarrow>
   distinct (map id_Employee (employee_db (snd (delete_employee s i))))"
  by (simp add: delete_employee_def distinct_map_remove1 split: sum.splits)

lemma employee_db_create_leave_request [simp]:
  "employee_db (snd (create_leave_request s i d)) = employee_db s"
  by (simp add: create_leave_request_def Let_def split: sum.splits)

lemma leave_ids_create_leave_request:
  assumes "distinct (map id_LeaveRequest (leave_db s))"
  shows "distinct (map id_LeaveRequest (leave_db (snd (create_leave_request s i d))))"
proof -
  have "leave_db s \<noteq> [] \<Longrightarrow>
    Max (set (map id_LeaveRequest (leave_db s))) + 1 \<notin> set (map id_LeaveRequest (leave_db s))"
    using Max_plus_one_fresh [of _ "map id_LeaveRequest (leave_db s)"] by fastforce
  with assms show ?thesis
    by (auto simp add: create_leave_request_def Let_def split: sum.splits)
qed

lemma employee_ids_set_used [simp]:
  "map id_Employee (employee_db (set_used s i ty v)) = map id_Employee (employee_db s)"
  by (simp add: employee_db_set_used map_update_first)

lemma leave_ids_set_status [simp]:
  "map id_LeaveRequest (leave_db (snd (set_status s r st))) = map id_LeaveRequest (leave_db s)"
  by (simp add: leave_db_set_status map_update_first)

lemma update_status_cases:
  obtains (error) err where "update_leave_request_status s i st = (Inl err, s)"
  | (credit) r e where
      "find (\<lambda>req. id_LeaveRequest req = i) (leave_db s) = Some r"
      "find_employee s (employee_id r) = Inr e"
      "status r \<noteq> APPROVED" "st = APPROVED"
      "calculate_business_days (start_date r) (end_date r)
         \<le> remaining (get_balance (leave_balances e) (leave_type r))"
      "update_leave_request_status s i st
         = set_status
             (set_used s (employee_id r) (leave_type r)
                (used (get_balance (leave_balances e) (leave_type r))
                   + calculate_business_days (start_date r) (end_date r)))
             r st"
  | (reclaim) r e where
      "find (\<lambda>req. id_LeaveRequest req = i) (leave_db s) = Some r"
      "find_employee s (employee_id r) = Inr e"
      "status r = APPROVED" "st \<noteq> APPROVED"
      "update_leave_request_status s i st
         = set_status
             (set_used s (employee_id r) (leave_type r)
                (used (get_balance (leave_balances e) (leave_type r))
                   - calculate_business_days (start_date r) (end_date r)))
             r st"
  | (plain) r e where
      "find (\<lambda>req. id_LeaveRequest req = i) (leave_db s) = Some r"
      "find_employee s (employee_id r) = Inr e"
      "(status r = APPROVED) = (st = APPROVED)"
      "update_leave_request_status s i st = set_status s r st"
proof (cases "find (\<lambda>req. id_LeaveRequest req = i) (leave_db s)")
  case None
  then show ?thesis using error by (simp add: update_status_no_request)
next
  case (Some r)
  show ?thesis
  proof (cases "find_employee s (employee_id r)")
    case (Inl err)
    with Some show ?thesis using error by (simp add: update_status_no_employee)
  next
    case (Inr e)
    let ?d = "calculate_business_days (start_date r) (end_date r)"
    let ?b = "get_balance (leave_balances e) (leave_type r)"
    consider (a) "st = APPROVED" "status r \<noteq> APPROVED" "remaining ?b < ?d"
      | (b) "st = APPROVED" "status r \<noteq> APPROVED" "?d \<le> remaining ?b"
      | (c) "status r = APPROVED" "st \<noteq> APPROVED"
      | (d) "(status r = APPROVED) = (st = APPROVED)"
      by fastforce
    then show ?thesis
    proof cases
      case a
      with Some Inr show ?thesis using error by (simp add: update_status_insufficient)
    next
      case b
      with Some Inr show ?thesis using credit [of r e] by (simp add: update_status_credit)
    next
      case c
      with Some Inr show ?thesis using reclaim [of r e] by (simp add: update_status_reclaim)
    next
      case d
      with Some Inr show ?thesis using plain [of r e] by (simp add: update_status_plain)
    qed
  qed
qed

lemma employee_ids_update_status [simp]:
  "map id_Employee (employee_db (snd (update_leave_request_status s i st)))
     = map id_Employee (employee_db s)"
  by (rule update_status_cases [of s i st]) simp_all

lemma leave_ids_update_status [simp]:
  "map id_LeaveRequest (leave_db (snd (update_leave_request_status s i st)))
     = map id_LeaveRequest (leave_db s)"
  by (rule update_status_cases [of s i st]) simp_all

lemma exec_ids_distinct:
  assumes "distinct (map id_Employee (employee_db s))"
    and "distinct (map id_LeaveRequest (leave_db s))"
  shows "distinct (map id_Employee (employee_db (exec s c))) \<and>
         distinct (map id_LeaveRequest (leave_db (exec s c)))"
  using assms
  by (cases c)
    (simp_all add: employee_ids_create_employee employee_ids_update_employee
      employee_ids_delete_employee leave_ids_create_leave_request)

lemma run_ids_distinct:
  "distinct (map id_Employee (employee_db s)) \<Longrightarrow>
   distinct (map id_LeaveRequest (leave_db s)) \<Longrightarrow>
   distinct (map id_Employee (employee_db (run s cs))) \<and>
   distinct (map id_LeaveRequest (leave_db (run s cs)))"
proof (induction cs arbitrary: s)
  case Nil
  then show ?case by simp
next
  case (Cons c cs)
  from exec_ids_distinct [OF Cons.prems, of c] Cons.IH [of "exec s c"]
  show ?case by simp
qed

text \<open>
  C10. In every state reached from the initial state by a sequence of API calls, the ids
  of the employees of \<open>employee_db\<close> are pairwise distinct and the ids of the requests of
  \<open>leave_db\<close> are pairwise distinct.
\<close>

theorem reachable_ids_distinct:
  "distinct (map id_Employee (employee_db (run initial_state cs))) \<and>
   distinct (map id_LeaveRequest (leave_db (run initial_state cs)))"
  by (rule run_ids_distinct) (simp_all add: initial_state_def)

theorem reachable_ids_distinct_witness:
  "distinct (map id_Employee (employee_db (run initial_state
     [CreateEmployeeCall carol, DeleteEmployeeCall 3, CreateEmployeeCall carol,
      CreateLeaveCall 1 trip, UpdateStatusCall 2 APPROVED]))) \<and>
   distinct (map id_LeaveRequest (leave_db (run initial_state
     [CreateEmployeeCall carol, DeleteEmployeeCall 3, CreateEmployeeCall carol,
      CreateLeaveCall 1 trip, UpdateStatusCall 2 APPROVED])))"
  by (rule reachable_ids_distinct)


section \<open>Assignment of employee ids\<close>

lemma fst_create_employee:
  "\<exists>e. fst (create_employee s d) = Inr e"
  by (simp add: create_employee_def Let_def)

lemma ids_after_delete:
  assumes "\<not> deletes_highest s (DeleteEmployeeCall i)" and "x \<in> set (employee_db s)"
  shows "\<exists>y\<in>set (employee_db (snd (delete_employee s i))). id_Employee x \<le> id_Employee y"
proof (cases "find_employee s i")
  case (Inl err)
  then have "employee_db (snd (delete_employee s i)) = employee_db s"
    by (simp add: delete_employee_def)
  with assms(2) show ?thesis by (intro bexI [of _ x]) simp_all
next
  case (Inr e)
  define m where "m = Max (set (map id_Employee (employee_db s)))"
  from assms(2) have ne: "employee_db s \<noteq> []" by (cases "employee_db s") simp_all
  then have "Max (set (map id_Employee (employee_db s))) \<in> set (map id_Employee (employee_db s))"
    by (intro Max_in) simp_all
  then have "m \<in> id_Employee ` set (employee_db s)"
    by (simp add: m_def)
  then obtain y where y: "y \<in> set (employee_db s)" "id_Employee y = m"
    by (auto simp add: image_iff)
  from Inr have "find (\<lambda>x. id_Employee x = i) (employee_db s) = Some e"
    by (simp add: find_employee_Inr)
  then have ie: "id_Employee e = i"
    by (rule find_SomeD [THEN conjunct1])
  from assms(1) ne have "i \<noteq> m"
    by (simp add: m_def)
  with ie y(2) have "y \<noteq> e" by blast
  with y(1) have in': "y \<in> set (remove1 e (employee_db s))" by simp
  from assms(2) have "id_Employee x \<in> set (map id_Employee (employee_db s))"
    by simp
  then have "id_Employee x \<le> Max (set (map id_Employee (employee_db s)))"
    by (intro Max_ge) simp_all
  then have le: "id_Employee x \<le> id_Employee y"
    by (simp only: y(2) m_def)
  have "employee_db (snd (delete_employee s i)) = remove1 e (employee_db s)"
    using Inr by (simp add: delete_employee_def)
  with in' le show ?thesis by (intro bexI [of _ y]) simp_all
qed

lemma ids_kept:
  assumes "map h xs = map h ys" and "x \<in> set xs"
  shows "\<exists>y\<in>set ys. (h x :: int) \<le> h y"
proof -
  from assms(2) have "h x \<in> set (map h xs)" by simp
  then have "h x \<in> set (map h ys)" by (simp only: assms(1))
  then obtain y where y: "y \<in> set ys" "h y = h x" by auto
  from y(2) have "h x \<le> h y" by simp
  with y(1) show ?thesis by (rule rev_bexI)
qed

lemma bound_transfer:
  assumes "\<And>x. x \<in> set xs \<Longrightarrow> \<exists>y\<in>set ys. (h x :: int) \<le> h y"
    and "\<forall>i\<in>A. \<forall>y\<in>set ys. h y < i"
  shows "\<forall>i\<in>A. \<forall>x\<in>set xs. h x < i"
proof (intro ballI)
  fix i x
  assume i: "i \<in> A" and x: "x \<in> set xs"
  from assms(1) [OF x] obtain y where "y \<in> set ys" "h x \<le> h y" by blast
  with assms(2) i show "h x < i" by force
qed

lemma assigned_ids_above:
  "keeps_highest s cs \<Longrightarrow>
   sorted_wrt (<) (assigned_ids s cs) \<and>
   (\<forall>i\<in>set (assigned_ids s cs). \<forall>x\<in>set (employee_db s). id_Employee x < i)"
proof (induction cs arbitrary: s)
  case Nil
  then show ?case by simp
next
  case (Cons c cs)
  then have k: "\<not> deletes_highest s c" and ks: "keeps_highest (exec s c) cs" by simp_all
  from Cons.IH [OF ks]
  have srt: "sorted_wrt (<) (assigned_ids (exec s c) cs)"
    and above: "\<forall>i\<in>set (assigned_ids (exec s c) cs).
      \<forall>x\<in>set (employee_db (exec s c)). id_Employee x < i"
    by simp_all
  show ?case
  proof (cases c)
    case (CreateEmployeeCall d)
    obtain e where e: "fst (create_employee s d) = Inr e"
      using fst_create_employee by blast
    have db: "employee_db (exec s c) = employee_db s @ [e]"
      using e CreateEmployeeCall by (simp add: employee_db_create_employee)
    have gt: "\<forall>x\<in>set (employee_db s). id_Employee x < id_Employee e"
      using e by (auto intro: create_employee_id_greater)
    have ids: "assigned_ids s (c # cs) = id_Employee e # assigned_ids (exec s c) cs"
      using e CreateEmployeeCall by simp
    from srt above db gt show ?thesis unfolding ids by auto
  next
    case (UpdateEmployeeCall i d)
    then have ids: "assigned_ids s (c # cs) = assigned_ids (exec s c) cs" by simp
    have "map id_Employee (employee_db s) = map id_Employee (employee_db (exec s c))"
      using UpdateEmployeeCall by (simp add: employee_ids_update_employee)
    from bound_transfer [OF ids_kept [OF this] above] srt
    show ?thesis unfolding ids by blast
  next
    case (DeleteEmployeeCall i)
    then have ids: "assigned_ids s (c # cs) = assigned_ids (exec s c) cs" by simp
    have "\<And>x. x \<in> set (employee_db s) \<Longrightarrow>
        \<exists>y\<in>set (employee_db (exec s c)). id_Employee x \<le> id_Employee y"
      using k DeleteEmployeeCall by (auto intro: ids_after_delete)
    from bound_transfer [OF this above] srt
    show ?thesis unfolding ids by blast
  next
    case (CreateLeaveCall i d)
    then have ids: "assigned_ids s (c # cs) = assigned_ids (exec s c) cs" by simp
    from CreateLeaveCall have "employee_db (exec s c) = employee_db s" by simp
    with srt above show ?thesis unfolding ids by simp
  next
    case (UpdateStatusCall i st)
    then have ids: "assigned_ids s (c # cs) = assigned_ids (exec s c) cs" by simp
    have "map id_Employee (employee_db s) = map id_Employee (employee_db (exec s c))"
      using UpdateStatusCall by simp
    from bound_transfer [OF ids_kept [OF this] above] srt
    show ?thesis unfolding ids by blast
  qed
qed

text \<open>
  As stated, C2 fails: in the initial state the first \<open>create_employee\<close> assigns 3; after
  employee 3 is deleted, the next \<open>create_employee\<close> assigns 3 again. The assigned ids are
  neither strictly increasing nor free of reuse.
\<close>

theorem employee_id_reused:
  "assigned_ids initial_state
     [CreateEmployeeCall carol, DeleteEmployeeCall 3, CreateEmployeeCall carol] = [3, 3] \<and>
   \<not> sorted_wrt (<) (assigned_ids initial_state
     [CreateEmployeeCall carol, DeleteEmployeeCall 3, CreateEmployeeCall carol]) \<and>
   \<not> distinct (assigned_ids initial_state
     [CreateEmployeeCall carol, DeleteEmployeeCall 3, CreateEmployeeCall carol])"
  by code_simp

text \<open>
  C2, amended. Each newly assigned employee id is the maximum of the existing ids plus 1 (1
  for an empty \<open>employee_db\<close>) and so exceeds every id then in \<open>employee_db\<close>. Over every
  sequence of calls in which \<open>delete_employee\<close> never removes the employee holding the
  highest id, the assigned ids are strictly increasing, pairwise distinct, and different
  from every id that was in \<open>employee_db\<close> at the start.
\<close>

theorem employee_ids_assigned:
  "(fst (create_employee s d) = Inr e \<longrightarrow>
      id_Employee e
        = (if employee_db s = [] then 1 else Max (set (map id_Employee (employee_db s))) + 1) \<and>
      (\<forall>x\<in>set (employee_db s). id_Employee x < id_Employee e)) \<and>
   (keeps_highest s cs \<longrightarrow>
      sorted_wrt (<) (assigned_ids s cs) \<and> distinct (assigned_ids s cs) \<and>
      (\<forall>i\<in>set (assigned_ids s cs). \<forall>x\<in>set (employee_db s). id_Employee x \<noteq> i))"
proof (intro conjI impI)
  assume e: "fst (create_employee s d) = Inr e"
  then show "id_Employee e
    = (if employee_db s = [] then 1 else Max (set (map id_Employee (employee_db s))) + 1)"
    by (auto simp add: create_employee_def Let_def)
  from e show "\<forall>x\<in>set (employee_db s). id_Employee x < id_Employee e"
    by (auto intro: create_employee_id_greater)
next
  assume k: "keeps_highest s cs"
  from assigned_ids_above [OF k] show "sorted_wrt (<) (assigned_ids s cs)" by simp
  then show "distinct (assigned_ids s cs)"
    by (simp add: strict_sorted_iff)
  from assigned_ids_above [OF k]
  show "\<forall>i\<in>set (assigned_ids s cs). \<forall>x\<in>set (employee_db s). id_Employee x \<noteq> i"
    by fastforce
qed

theorem employee_ids_assigned_witness:
  "id_Employee carol_record = 3 \<and>
   id_Employee alice < id_Employee carol_record \<and>
   sorted_wrt (<) (assigned_ids initial_state
     [CreateEmployeeCall carol, DeleteEmployeeCall 1, CreateEmployeeCall carol]) \<and>
   distinct (assigned_ids initial_state
     [CreateEmployeeCall carol, DeleteEmployeeCall 1, CreateEmployeeCall carol])"
proof -
  have c: "fst (create_employee initial_state carol) = Inr carol_record"
    by code_simp
  have k: "keeps_highest initial_state
     [CreateEmployeeCall carol, DeleteEmployeeCall 1, CreateEmployeeCall carol]"
    by code_simp
  have m: "(if employee_db initial_state = [] then 1
      else Max (set (map id_Employee (employee_db initial_state))) + 1) = 3"
    by code_simp
  have a: "alice \<in> set (employee_db initial_state)"
    by code_simp
  from employee_ids_assigned [of initial_state carol carol_record
      "[CreateEmployeeCall carol, DeleteEmployeeCall 1, CreateEmployeeCall carol]"] c k
  have "id_Employee carol_record = 3"
    and "\<forall>x\<in>set (employee_db initial_state). id_Employee x < id_Employee carol_record"
    and "sorted_wrt (<) (assigned_ids initial_state
       [CreateEmployeeCall carol, DeleteEmployeeCall 1, CreateEmployeeCall carol])"
    and "distinct (assigned_ids initial_state
       [CreateEmployeeCall carol, DeleteEmployeeCall 1, CreateEmployeeCall carol])"
    unfolding m by blast+
  with a show ?thesis by blast
qed


section \<open>Balances stay within the allocation\<close>

lemma list_all_update_first_found:
  "find P xs = Some x \<Longrightarrow> list_all Q xs \<Longrightarrow> Q (f x) \<Longrightarrow> list_all Q (update_first P f xs)"
  by (induction xs) (auto split: if_splits)

lemma list_all_remove1: "list_all Q xs \<Longrightarrow> list_all Q (remove1 x xs)"
  by (induction xs) auto

lemma all_leave_types: "list_all Q leave_types \<longleftrightarrow> (\<forall>ty. Q ty)"
proof
  assume "list_all Q leave_types"
  then have q: "Q VACATION" "Q SICK" "Q PERSONAL" by (simp_all add: leave_types_def)
  show "\<forall>ty. Q ty"
  proof
    fix ty show "Q ty" using q by (cases ty) simp_all
  qed
next
  assume "\<forall>ty. Q ty"
  then show "list_all Q leave_types" by (simp add: leave_types_def)
qed

lemma balance_within_iff:
  "balance_within e \<longleftrightarrow>
   (\<forall>ty. used (get_balance (leave_balances e) ty) \<le> allocated (get_balance (leave_balances e) ty))"
  by (simp add: balance_within_def all_leave_types)

lemma get_balance_with_used:
  "get_balance (leave_balances (with_used e ty v)) ty'
     = (if ty' = ty then (get_balance (leave_balances e) ty)\<lparr>used := v\<rparr>
        else get_balance (leave_balances e) ty')"
  by (simp add: with_used_def)

lemma balance_within_with_used:
  assumes "balance_within e" and "v \<le> allocated (get_balance (leave_balances e) ty)"
  shows "balance_within (with_used e ty v)"
  using assms by (simp add: balance_within_iff get_balance_with_used)

lemma balance_within_default:
  "balance_within \<lparr>id_Employee = i, name = n, position = p, department = d,
     leave_balances = default_EmployeeBalances\<rparr>"
  by (simp add: balance_within_def leave_types_def default_EmployeeBalances_def
      default_LeaveBalance_def)

lemma within_create_employee:
  "within_allocation s \<Longrightarrow> within_allocation (snd (create_employee s d))"
  by (simp add: within_allocation_def create_employee_def Let_def balance_within_default)

lemma within_update_employee:
  assumes "within_allocation s"
  shows "within_allocation (snd (update_employee s i d))"
proof (cases "find_employee s i")
  case (Inl err)
  with assms show ?thesis by (simp add: update_employee_def)
next
  case (Inr e)
  then have f: "find (\<lambda>x. id_Employee x = i) (employee_db s) = Some e"
    by (simp add: find_employee_Inr)
  then have "e \<in> set (employee_db s)" by (rule find_SomeD [THEN conjunct2])
  with assms have "balance_within e"
    by (simp add: within_allocation_def list_all_iff)
  then have "balance_within
    (e\<lparr>name := name_data d, position := position_data d, department := department_data d\<rparr>)"
    by (simp add: balance_within_def)
  with assms f Inr show ?thesis
    by (simp add: update_employee_def Let_def within_allocation_def list_all_update_first_found)
qed

lemma within_delete_employee:
  "within_allocation s \<Longrightarrow> within_allocation (snd (delete_employee s i))"
  by (simp add: within_allocation_def delete_employee_def list_all_remove1 split: sum.splits)

lemma within_create_leave_request:
  "within_allocation s \<Longrightarrow> within_allocation (snd (create_leave_request s i d))"
  by (simp add: within_allocation_def)

lemma within_set_used:
  assumes "within_allocation s" and "find_employee s i = Inr e"
    and "v \<le> allocated (get_balance (leave_balances e) ty)"
  shows "within_allocation (snd (set_status (set_used s i ty v) r st))"
proof -
  from assms(2) have f: "find (\<lambda>x. id_Employee x = i) (employee_db s) = Some e"
    by (simp add: find_employee_Inr)
  then have "e \<in> set (employee_db s)" by (rule find_SomeD [THEN conjunct2])
  with assms(1) have "balance_within e"
    by (simp add: within_allocation_def list_all_iff)
  with assms(3) have "balance_within (with_used e ty v)"
    by (simp add: balance_within_with_used)
  with assms(1) f show ?thesis
    by (simp add: within_allocation_def employee_db_set_used list_all_update_first_found)
qed

lemma within_update_status:
  assumes "within_allocation s"
  shows "within_allocation (snd (update_leave_request_status s i st))"
proof (rule update_status_cases [of s i st])
  fix err
  assume "update_leave_request_status s i st = (Inl err, s)"
  with assms show ?thesis by simp
next
  fix r e
  assume e: "find_employee s (employee_id r) = Inr e"
    and le: "calculate_business_days (start_date r) (end_date r)
         \<le> remaining (get_balance (leave_balances e) (leave_type r))"
    and eq: "update_leave_request_status s i st
         = set_status
             (set_used s (employee_id r) (leave_type r)
                (used (get_balance (leave_balances e) (leave_type r))
                   + calculate_business_days (start_date r) (end_date r)))
             r st"
  from le have "used (get_balance (leave_balances e) (leave_type r))
      + calculate_business_days (start_date r) (end_date r)
    \<le> allocated (get_balance (leave_balances e) (leave_type r))"
    by (simp add: remaining_def)
  from within_set_used [OF assms e this] show ?thesis by (simp add: eq)
next
  fix r e
  assume e: "find_employee s (employee_id r) = Inr e"
    and eq: "update_leave_request_status s i st
         = set_status
             (set_used s (employee_id r) (leave_type r)
                (used (get_balance (leave_balances e) (leave_type r))
                   - calculate_business_days (start_date r) (end_date r)))
             r st"
  from e have "find (\<lambda>x. id_Employee x = employee_id r) (employee_db s) = Some e"
    by (simp add: find_employee_Inr)
  then have "e \<in> set (employee_db s)" by (rule find_SomeD [THEN conjunct2])
  with assms have "balance_within e"
    by (simp add: within_allocation_def list_all_iff)
  then have "used (get_balance (leave_balances e) (leave_type r))
    \<le> allocated (get_balance (leave_balances e) (leave_type r))"
    by (simp add: balance_within_iff)
  with business_days_nonneg [of "start_date r" "end_date r"]
  have "used (get_balance (leave_balances e) (leave_type r))
      - calculate_business_days (start_date r) (end_date r)
    \<le> allocated (get_balance (leave_balances e) (leave_type r))"
    by simp
  from within_set_used [OF assms e this] show ?thesis by (simp add: eq)
next
  fix r e
  assume "update_leave_request_status s i st = set_status s r st"
  with assms show ?thesis by (simp add: within_allocation_def)
qed

lemma within_exec: "within_allocation s \<Longrightarrow> within_allocation (exec s c)"
  by (cases c)
    (simp_all add: within_create_employee within_update_employee within_delete_employee
      within_create_leave_request within_update_status)

lemma within_run: "within_allocation s \<Longrightarrow> within_allocation (run s cs)"
  by (induction cs arbitrary: s) (simp_all add: within_exec)

lemma within_initial: "within_allocation initial_state"
  by code_simp


section \<open>Approved days and the ledger\<close>

lemma sum_list_update_first:
  fixes g :: "'a \<Rightarrow> int"
  shows "find P xs = Some x \<Longrightarrow>
    sum_list (map g (update_first P f xs)) = sum_list (map g xs) - g x + g (f x)"
  by (induction xs) (auto split: if_splits)

lemma sum_list_all_zero:
  fixes g :: "'a \<Rightarrow> int"
  shows "(\<And>x. x \<in> set xs \<Longrightarrow> g x = 0) \<Longrightarrow> sum_list (map g xs) = 0"
  by (induction xs) auto

lemma charged_days_nonneg: "0 \<le> charged_days i ty r"
  by (simp add: charged_days_def business_days_nonneg)

lemma approved_days_nonneg: "0 \<le> approved_days rs i ty"
  unfolding approved_days_def
  by (induction rs) (simp_all add: charged_days_nonneg)

lemma approved_days_append:
  "approved_days (rs @ [r]) i ty = approved_days rs i ty + charged_days i ty r"
  by (simp add: approved_days_def)

lemma approved_days_set_status:
  assumes "find (\<lambda>req. id_LeaveRequest req = id_LeaveRequest r) rs = Some r"
  shows "approved_days
      (update_first (\<lambda>req. id_LeaveRequest req = id_LeaveRequest r)
         (\<lambda>req. req\<lparr>status := st\<rparr>) rs) i ty
    = approved_days rs i ty - charged_days i ty r + charged_days i ty (r\<lparr>status := st\<rparr>)"
  unfolding approved_days_def using assms by (rule sum_list_update_first)

lemma charged_days_elsewhere:
  "employee_id r \<noteq> i \<or> leave_type r \<noteq> ty \<Longrightarrow> charged_days i ty r = 0"
  by (auto simp add: charged_days_def)

lemma approved_days_unowned:
  assumes "approved_owned s" and "i \<notin> set (map id_Employee (employee_db s))"
  shows "approved_days (leave_db s) i ty = 0"
  unfolding approved_days_def
proof (rule sum_list_all_zero)
  fix r
  assume "r \<in> set (leave_db s)"
  with assms(1) have "status r = APPROVED \<longrightarrow>
      employee_id r \<in> set (map id_Employee (employee_db s))"
    by (simp add: approved_owned_def list_all_iff)
  with assms(2) show "charged_days i ty r = 0"
    by (auto simp add: charged_days_def)
qed

lemma covered_iff:
  "covered rs e \<longleftrightarrow>
   (\<forall>ty. approved_days rs (id_Employee e) ty \<le> used (get_balance (leave_balances e) ty))"
  by (simp add: covered_def all_leave_types)

lemma list_all_update_first_distinct:
  assumes "distinct (map h xs)" and "find (\<lambda>x. h x = k) xs = Some x0"
    and "Q (f x0)" and "\<And>x. x \<in> set xs \<Longrightarrow> h x \<noteq> k \<Longrightarrow> Q x"
  shows "list_all Q (update_first (\<lambda>x. h x = k) f xs)"
  using assms
proof (induction xs)
  case Nil
  then show ?case by simp
next
  case (Cons x xs)
  show ?case
  proof (cases "h x = k")
    case True
    with Cons.prems(2) have x0: "x0 = x" by simp
    have "list_all Q xs"
      unfolding list_all_iff
    proof
      fix y assume y: "y \<in> set xs"
      from Cons.prems(1) have "h x \<notin> h ` set xs" by simp
      with y True have "h y \<noteq> k" by (metis imageI)
      with y show "Q y" by (simp add: Cons.prems(4))
    qed
    with True x0 Cons.prems(3) show ?thesis by simp
  next
    case False
    with Cons.prems have "list_all Q (update_first (\<lambda>x. h x = k) f xs)"
      by (intro Cons.IH) simp_all
    moreover from False have "Q x" by (simp add: Cons.prems(4))
    ultimately show ?thesis using False by simp
  qed
qed

lemma set_used_same:
  assumes "find_employee s i = Inr e"
  shows "set_used s i ty (used (get_balance (leave_balances e) ty)) = s"
proof -
  from assms have f: "find (\<lambda>x. id_Employee x = i) (employee_db s) = Some e"
    by (simp add: find_employee_Inr)
  have "with_used e ty (used (get_balance (leave_balances e) ty)) = e"
    by (simp add: with_used_same)
  with f have "update_first (\<lambda>x. id_Employee x = i)
      (\<lambda>x. with_used x ty (used (get_balance (leave_balances e) ty))) (employee_db s)
    = employee_db s"
    by (rule update_first_same)
  then have "employee_db (set_used s i ty (used (get_balance (leave_balances e) ty)))
    = employee_db s"
    by (simp add: employee_db_set_used)
  then show ?thesis by (simp add: set_used_def)
qed

lemma update_status_effect:
  obtains (error) err where "update_leave_request_status s i st = (Inl err, s)"
  | (ok) r e where
      "find (\<lambda>req. id_LeaveRequest req = i) (leave_db s) = Some r"
      "find_employee s (employee_id r) = Inr e"
      "snd (update_leave_request_status s i st)
         = snd (set_status
             (set_used s (employee_id r) (leave_type r)
                (used (get_balance (leave_balances e) (leave_type r))
                   + charged_days (employee_id r) (leave_type r) (r\<lparr>status := st\<rparr>)
                   - charged_days (employee_id r) (leave_type r) r))
             r st)"
proof (rule update_status_cases [of s i st])
  fix err
  assume "update_leave_request_status s i st = (Inl err, s)"
  then show ?thesis by (rule error)
next
  fix r e
  assume "find (\<lambda>req. id_LeaveRequest req = i) (leave_db s) = Some r"
    "find_employee s (employee_id r) = Inr e" "status r \<noteq> APPROVED" "st = APPROVED"
    "update_leave_request_status s i st
         = set_status
             (set_used s (employee_id r) (leave_type r)
                (used (get_balance (leave_balances e) (leave_type r))
                   + calculate_business_days (start_date r) (end_date r)))
             r st"
  then show ?thesis
    by (intro ok [of r e]) (simp_all add: charged_days_def)
next
  fix r e
  assume "find (\<lambda>req. id_LeaveRequest req = i) (leave_db s) = Some r"
    "find_employee s (employee_id r) = Inr e" "status r = APPROVED" "st \<noteq> APPROVED"
    "update_leave_request_status s i st
         = set_status
             (set_used s (employee_id r) (leave_type r)
                (used (get_balance (leave_balances e) (leave_type r))
                   - calculate_business_days (start_date r) (end_date r)))
             r st"
  then show ?thesis
    by (intro ok [of r e]) (simp_all add: charged_days_def)
next
  fix r e
  assume f: "find (\<lambda>req. id_LeaveRequest req = i) (leave_db s) = Some r"
    and e: "find_employee s (employee_id r) = Inr e"
    and st: "(status r = APPROVED) = (st = APPROVED)"
    and eq: "update_leave_request_status s i st = set_status s r st"
  from st have "charged_days (employee_id r) (leave_type r) (r\<lparr>status := st\<rparr>)
    = charged_days (employee_id r) (leave_type r) r"
    by (simp add: charged_days_def)
  with f e eq show ?thesis
    by (intro ok [of r e]) (simp_all add: set_used_same)
qed


section \<open>The pairing of approvals and ledger\<close>

lemma covered_same_ledger:
  "id_Employee e' = id_Employee e \<Longrightarrow> leave_balances e' = leave_balances e \<Longrightarrow>
   covered rs e' = covered rs e"
  by (simp add: covered_def)

lemma paired_create_employee:
  assumes "paired s"
  shows "paired (snd (create_employee s d))"
proof -
  obtain e where e: "fst (create_employee s d) = Inr e"
    using fst_create_employee by blast
  then have db: "employee_db (snd (create_employee s d)) = employee_db s @ [e]"
    by (simp add: employee_db_create_employee)
  from e have bal: "leave_balances e = default_EmployeeBalances"
    by (auto simp add: create_employee_def Let_def)
  from e have "\<forall>x\<in>set (employee_db s). id_Employee x < id_Employee e"
    by (auto intro: create_employee_id_greater)
  then have fresh: "id_Employee e \<notin> set (map id_Employee (employee_db s))"
    by auto
  from assms have d: "distinct (map id_Employee (employee_db s))"
    and o: "approved_owned s" and c: "ledger_covers s"
    by (simp_all add: paired_def)
  have d': "distinct (map id_Employee (employee_db (snd (create_employee s d))))"
    using d by (rule employee_ids_create_employee)
  have o': "approved_owned (snd (create_employee s d))"
    using o by (simp add: approved_owned_def db list_all_iff)
  have "covered (leave_db s) e"
    unfolding covered_iff
  proof
    fix ty
    have "approved_days (leave_db s) (id_Employee e) ty = 0"
      using o fresh by (rule approved_days_unowned)
    moreover have "used (get_balance default_EmployeeBalances ty) = 0"
      by (cases ty) (simp_all add: default_EmployeeBalances_def default_LeaveBalance_def)
    ultimately show "approved_days (leave_db s) (id_Employee e) ty
      \<le> used (get_balance (leave_balances e) ty)"
      by (simp add: bal)
  qed
  with c have c': "ledger_covers (snd (create_employee s d))"
    by (simp add: ledger_covers_def db)
  from d' o' c' show ?thesis by (simp add: paired_def)
qed

lemma paired_update_employee:
  assumes "paired s"
  shows "paired (snd (update_employee s i d))"
proof (cases "find_employee s i")
  case (Inl err)
  with assms show ?thesis by (simp add: update_employee_def)
next
  case (Inr e)
  let ?e' = "e\<lparr>name := name_data d, position := position_data d,
    department := department_data d\<rparr>"
  from Inr have f: "find (\<lambda>x. id_Employee x = i) (employee_db s) = Some e"
    by (simp add: find_employee_Inr)
  then have "e \<in> set (employee_db s)" by (rule find_SomeD [THEN conjunct2])
  from assms have d: "distinct (map id_Employee (employee_db s))"
    and o: "approved_owned s" and c: "ledger_covers s"
    by (simp_all add: paired_def)
  have db: "employee_db (snd (update_employee s i d))
    = update_first (\<lambda>x. id_Employee x = i) (\<lambda>_. ?e') (employee_db s)"
    using Inr by (simp add: update_employee_def Let_def)
  have ids: "map id_Employee (employee_db (snd (update_employee s i d)))
    = map id_Employee (employee_db s)"
    by (rule employee_ids_update_employee)
  have "covered (leave_db s) ?e' = covered (leave_db s) e"
    by (rule covered_same_ledger) simp_all
  with c \<open>e \<in> set (employee_db s)\<close> have "covered (leave_db s) ?e'"
    by (simp add: ledger_covers_def list_all_iff)
  with c f have "ledger_covers (snd (update_employee s i d))"
    by (simp add: ledger_covers_def db list_all_update_first_found)
  moreover from o have "approved_owned (snd (update_employee s i d))"
    by (simp add: approved_owned_def ids del: set_map)
  moreover from d have "distinct (map id_Employee (employee_db (snd (update_employee s i d))))"
    by (simp only: ids)
  ultimately show ?thesis by (simp add: paired_def)
qed

lemma paired_delete_employee:
  assumes "paired s" and "\<not> orphans_approved s (DeleteEmployeeCall i)"
  shows "paired (snd (delete_employee s i))"
proof (cases "find_employee s i")
  case (Inl err)
  with assms show ?thesis by (simp add: delete_employee_def)
next
  case (Inr e)
  from Inr have f: "find (\<lambda>x. id_Employee x = i) (employee_db s) = Some e"
    by (simp add: find_employee_Inr)
  then have ie: "id_Employee e = i" by (rule find_SomeD [THEN conjunct1])
  from assms have d: "distinct (map id_Employee (employee_db s))"
    and o: "approved_owned s" and c: "ledger_covers s"
    by (simp_all add: paired_def)
  have db: "employee_db (snd (delete_employee s i)) = remove1 e (employee_db s)"
    using Inr by (simp add: delete_employee_def)
  have d': "distinct (map id_Employee (employee_db (snd (delete_employee s i))))"
    using d by (rule employee_ids_delete_employee)
  have c': "ledger_covers (snd (delete_employee s i))"
    using c by (simp add: ledger_covers_def db list_all_remove1)
  have o': "approved_owned (snd (delete_employee s i))"
    unfolding approved_owned_def list_all_iff
  proof (intro ballI impI)
    fix r
    assume r: "r \<in> set (leave_db (snd (delete_employee s i)))" and a: "status r = APPROVED"
    from r have r': "r \<in> set (leave_db s)" by simp
    with o a have "employee_id r \<in> set (map id_Employee (employee_db s))"
      by (simp add: approved_owned_def list_all_iff)
    then obtain y where y: "y \<in> set (employee_db s)" "id_Employee y = employee_id r"
      by auto
    from assms(2) r' a have "employee_id r \<noteq> i"
      by (auto simp add: list_ex_iff)
    with y ie have "y \<noteq> e" by auto
    with y(1) have "y \<in> set (remove1 e (employee_db s))" by simp
    then have "id_Employee y \<in> id_Employee ` set (remove1 e (employee_db s))"
      by (rule imageI)
    then show "employee_id r \<in> set (map id_Employee (employee_db (snd (delete_employee s i))))"
      by (simp add: db y(2))
  qed
  from d' o' c' show ?thesis by (simp add: paired_def)
qed

lemma paired_create_leave_request:
  assumes "paired s"
  shows "paired (snd (create_leave_request s i d))"
proof (cases "fst (create_leave_request s i d)")
  case (Inl err)
  then have "snd (create_leave_request s i d) = s"
    by (auto simp add: create_leave_request_def Let_def split: sum.splits if_splits)
  with assms show ?thesis by simp
next
  case (Inr new_request)
  then have db: "leave_db (snd (create_leave_request s i d)) = leave_db s @ [new_request]"
    and st: "status new_request = PENDING"
    by (auto simp add: create_leave_request_def Let_def split: sum.splits if_splits)
  from st have z: "\<And>j ty. charged_days j ty new_request = 0"
    by (simp add: charged_days_def)
  from assms have d: "distinct (map id_Employee (employee_db s))"
    and o: "approved_owned s" and c: "ledger_covers s"
    by (simp_all add: paired_def)
  have "covered (leave_db s @ [new_request]) = covered (leave_db s)"
    by (rule ext) (simp add: covered_def approved_days_append z)
  with c have "ledger_covers (snd (create_leave_request s i d))"
    by (simp add: ledger_covers_def db)
  moreover from o st have "approved_owned (snd (create_leave_request s i d))"
    by (simp add: approved_owned_def db)
  ultimately show ?thesis using d by (simp add: paired_def)
qed


lemma paired_update_status:
  assumes "paired s"
  shows "paired (snd (update_leave_request_status s i st))"
proof (rule update_status_effect [of s i st])
  fix err
  assume "update_leave_request_status s i st = (Inl err, s)"
  with assms show ?thesis by simp
next
  fix r :: LeaveRequest and e :: Employee
  let ?i0 = "employee_id r" and ?ty0 = "leave_type r"
  let ?r' = "r\<lparr>status := st\<rparr>"
  let ?u = "used (get_balance (leave_balances e) ?ty0)"
  let ?v = "?u + charged_days ?i0 ?ty0 ?r' - charged_days ?i0 ?ty0 r"
  let ?s' = "snd (update_leave_request_status s i st)"
  assume fr: "find (\<lambda>req. id_LeaveRequest req = i) (leave_db s) = Some r"
    and fe: "find_employee s ?i0 = Inr e"
    and eq: "?s' = snd (set_status (set_used s ?i0 ?ty0 ?v) r st)"
  from assms have d: "distinct (map id_Employee (employee_db s))"
    and o: "approved_owned s" and c: "ledger_covers s"
    by (simp_all add: paired_def)
  from fr have idr: "id_LeaveRequest r = i" by (rule find_SomeD [THEN conjunct1])
  with fr have fr': "find (\<lambda>req. id_LeaveRequest req = id_LeaveRequest r) (leave_db s) = Some r"
    by simp
  from fe have f: "find (\<lambda>x. id_Employee x = ?i0) (employee_db s) = Some e"
    by (simp add: find_employee_Inr)
  then have ie: "id_Employee e = ?i0" and ein: "e \<in> set (employee_db s)"
    by (auto dest: find_SomeD)
  have db: "employee_db ?s'
    = update_first (\<lambda>x. id_Employee x = ?i0) (\<lambda>x. with_used x ?ty0 ?v) (employee_db s)"
    by (simp add: eq employee_db_set_used)
  have rs: "leave_db ?s'
    = update_first (\<lambda>req. id_LeaveRequest req = id_LeaveRequest r)
        (\<lambda>req. req\<lparr>status := st\<rparr>) (leave_db s)"
    by (simp add: eq leave_db_set_status)
  have ids: "map id_Employee (employee_db ?s') = map id_Employee (employee_db s)"
    by simp
  have days: "approved_days (leave_db ?s') j ty
    = approved_days (leave_db s) j ty - charged_days j ty r + charged_days j ty ?r'" for j ty
    unfolding rs using fr' by (rule approved_days_set_status)
  have d': "distinct (map id_Employee (employee_db ?s'))"
    using d by (simp only: ids)
  have "?i0 \<in> set (map id_Employee (employee_db s))"
    using ein ie by force
  then have own: "status ?r' = APPROVED \<longrightarrow> employee_id ?r' \<in> set (map id_Employee (employee_db ?s'))"
    by (simp only: ids) simp
  have o': "approved_owned ?s'"
    unfolding approved_owned_def rs
  proof (rule list_all_update_first_found [OF fr'])
    from o show "list_all (\<lambda>r. status r = APPROVED \<longrightarrow>
        employee_id r \<in> set (map id_Employee (employee_db ?s'))) (leave_db s)"
      unfolding approved_owned_def by (simp only: ids)
    from own show "status ?r' = APPROVED \<longrightarrow>
        employee_id ?r' \<in> set (map id_Employee (employee_db ?s'))" .
  qed
  have c': "ledger_covers ?s'"
    unfolding ledger_covers_def db
  proof (rule list_all_update_first_distinct [OF d f])
    from c ein have ce: "covered (leave_db s) e"
      by (simp add: ledger_covers_def list_all_iff)
    show "covered (leave_db ?s') (with_used e ?ty0 ?v)"
      unfolding covered_iff
    proof
      fix ty
      from ce have le: "approved_days (leave_db s) ?i0 ty \<le> used (get_balance (leave_balances e) ty)"
        by (simp add: covered_iff ie)
      show "approved_days (leave_db ?s') (id_Employee (with_used e ?ty0 ?v)) ty
        \<le> used (get_balance (leave_balances (with_used e ?ty0 ?v)) ty)"
      proof (cases "ty = ?ty0")
        case True
        with le show ?thesis by (simp add: days ie)
      next
        case False
        then have "charged_days ?i0 ty r = 0" "charged_days ?i0 ty ?r' = 0"
          by (simp_all add: charged_days_def)
        with le False show ?thesis
          by (simp add: days ie get_balance_with_used)
      qed
    qed
  next
    fix x
    assume x: "x \<in> set (employee_db s)" and ne: "id_Employee x \<noteq> ?i0"
    from c x have cx: "covered (leave_db s) x"
      by (simp add: ledger_covers_def list_all_iff)
    from ne have "charged_days (id_Employee x) ty r = 0"
      "charged_days (id_Employee x) ty ?r' = 0" for ty
      by (simp_all add: charged_days_def)
    with cx show "covered (leave_db ?s') x"
      by (simp add: covered_iff days)
  qed
  from d' o' c' show ?thesis by (simp add: paired_def)
qed

lemma paired_exec:
  "paired s \<Longrightarrow> \<not> orphans_approved s c \<Longrightarrow> paired (exec s c)"
  by (cases c)
    (simp_all add: paired_create_employee paired_update_employee paired_delete_employee
      paired_create_leave_request paired_update_status del: orphans_approved.simps)

lemma paired_run:
  "paired s \<Longrightarrow> keeps_owners s cs \<Longrightarrow> paired (run s cs)"
  by (induction cs arbitrary: s) (simp_all add: paired_exec)

lemma paired_initial: "paired initial_state"
  by code_simp

lemma paired_nonneg_used:
  assumes "paired s"
  shows "nonneg_used s"
  unfolding nonneg_used_def list_all_iff
proof
  fix e
  assume "e \<in> set (employee_db s)"
  with assms have c: "covered (leave_db s) e"
    by (simp add: paired_def ledger_covers_def list_all_iff)
  show "balance_nonneg e"
    unfolding balance_nonneg_def all_leave_types
  proof
    fix ty
    from c have "approved_days (leave_db s) (id_Employee e) ty
      \<le> used (get_balance (leave_balances e) ty)"
      by (simp add: covered_iff)
    with approved_days_nonneg [of "leave_db s" "id_Employee e" ty]
    show "0 \<le> used (get_balance (leave_balances e) ty)" by simp
  qed
qed

text \<open>
  As stated, C1 fails. From the initial state, Bob (employee 2, owner of the approved
  request 1) is deleted, \<open>create_employee\<close> gives the next employee the id 2 again with
  fresh balances, and request 1 is rejected: the three days are reclaimed from the new
  employee, whose vacation balance ends with \<open>used = -3\<close>.
\<close>

theorem used_goes_negative:
  "map (\<lambda>e. used (vacation (leave_balances e)))
     (employee_db (run initial_state
        [DeleteEmployeeCall 2, CreateEmployeeCall carol, UpdateStatusCall 1 REJECTED]))
     = [0, - 3] \<and>
   \<not> nonneg_used (run initial_state
        [DeleteEmployeeCall 2, CreateEmployeeCall carol, UpdateStatusCall 1 REJECTED])"
  by code_simp

text \<open>
  C1, amended. In every state reached from the initial state by a sequence of API calls,
  every balance of every employee has \<open>used \<le> allocated\<close>. Moreover \<open>0 \<le> used\<close> holds for
  every balance in every state reached by a sequence in which \<open>delete_employee\<close> is never
  called on an id that an approved leave request refers to.
\<close>

theorem balance_bounds_reachable:
  "within_allocation (run initial_state cs) \<and>
   (keeps_owners initial_state cs \<longrightarrow> nonneg_used (run initial_state cs))"
proof (intro conjI impI)
  show "within_allocation (run initial_state cs)"
    using within_initial by (rule within_run)
next
  assume "keeps_owners initial_state cs"
  with paired_initial have "paired (run initial_state cs)"
    by (rule paired_run)
  then show "nonneg_used (run initial_state cs)"
    by (rule paired_nonneg_used)
qed

theorem balance_bounds_reachable_witness:
  "within_allocation (run initial_state
     [CreateLeaveCall 1 week1, CreateLeaveCall 1 week2, UpdateStatusCall 2 APPROVED,
      UpdateStatusCall 1 REJECTED, DeleteEmployeeCall 2, CreateEmployeeCall carol,
      UpdateStatusCall 1 APPROVED]) \<and>
   nonneg_used (run initial_state
     [CreateLeaveCall 1 week1, CreateLeaveCall 1 week2, UpdateStatusCall 2 APPROVED,
      UpdateStatusCall 1 REJECTED, DeleteEmployeeCall 2, CreateEmployeeCall carol,
      UpdateStatusCall 1 APPROVED])"
proof -
  have k: "keeps_owners initial_state
     [CreateLeaveCall 1 week1, CreateLeaveCall 1 week2, UpdateStatusCall 2 APPROVED,
      UpdateStatusCall 1 REJECTED, DeleteEmployeeCall 2, CreateEmployeeCall carol,
      UpdateStatusCall 1 APPROVED]"
    by code_simp
  from balance_bounds_reachable [of
     "[CreateLeaveCall 1 week1, CreateLeaveCall 1 week2, UpdateStatusCall 2 APPROVED,
      UpdateStatusCall 1 REJECTED, DeleteEmployeeCall 2, CreateEmployeeCall carol,
      UpdateStatusCall 1 APPROVED]"] k
  show ?thesis by blast
qed

end
